theory Spec2Isabelle
  imports Complex_Main "HOL-Library.Word" "HOL-Library.Log_Nat"
begin

section \<open>Strings of the page and of the request\<close>

text \<open>
  A JavaScript string is a sequence of 16-bit code units.  \<open>js\<close> writes an ASCII
  literal of the source as such a sequence.
\<close>

type_synonym code_unit = "16 word"
type_synonym jsstring = "code_unit list"

definition js :: "string \<Rightarrow> jsstring" where
  "js s = map (\<lambda>c. of_nat (of_char c)) s"

text \<open>
  \<open>is_ws\<close> is the set WhiteSpace + LineTerminator of ECMAScript: what \<^verbatim>\<open>\s\<close> matches
  in a regular expression, what \<^verbatim>\<open>trim()\<close> removes, and what \<^verbatim>\<open>parseInt\<close> and
  \<^verbatim>\<open>parseFloat\<close> skip at the start (TAB, LF, VT, FF, CR, SP, NBSP, U+1680,
  U+2000..U+200A, U+2028, U+2029, U+202F, U+205F, U+3000, U+FEFF).
\<close>

definition is_ws :: "code_unit \<Rightarrow> bool" where
  "is_ws c = (c = 9 \<or> c = 10 \<or> c = 11 \<or> c = 12 \<or> c = 13 \<or> c = 32 \<or> c = 160 \<or> c = 5760
     \<or> (8192 \<le> c \<and> c \<le> 8202) \<or> c = 8232 \<or> c = 8233 \<or> c = 8239 \<or> c = 8287
     \<or> c = 12288 \<or> c = 65279)"

text \<open>\<^verbatim>\<open>\d\<close>: the ASCII digits only.\<close>

definition is_digit :: "code_unit \<Rightarrow> bool" where
  "is_digit c = (48 \<le> c \<and> c \<le> 57)"

definition trimStart :: "jsstring \<Rightarrow> jsstring" where
  "trimStart s = dropWhile is_ws s"

definition trimEnd :: "jsstring \<Rightarrow> jsstring" where
  "trimEnd s = rev (dropWhile is_ws (rev s))"

definition trim :: "jsstring \<Rightarrow> jsstring" where
  "trim s = trimEnd (trimStart s)"

text \<open>
  \<^verbatim>\<open>toLowerCase()\<close>.  The source lowers one string only, the unit token the regular
  expression has matched, which is made of ASCII letters (lemma \<open>match_unit_letters\<close>
  below); on those, lowering is this map.
\<close>

definition lower :: "code_unit \<Rightarrow> code_unit" where
  "lower c = (if 65 \<le> c \<and> c \<le> 90 then c + 32 else c)"

definition toLowerCase :: "jsstring \<Rightarrow> jsstring" where
  "toLowerCase s = map lower s"

text \<open>
  \<^verbatim>\<open>s.split('-')\<close> and \<^verbatim>\<open>parts.join('-')\<close> for a separator of one code unit.
  Splitting the empty string gives one empty part.
\<close>

fun split_on :: "code_unit \<Rightarrow> jsstring \<Rightarrow> jsstring list" where
  "split_on sep [] = [[]]"
| "split_on sep (c # cs) =
     (if c = sep then [] # split_on sep cs
      else (case split_on sep cs of [] \<Rightarrow> [[c]] | p # ps \<Rightarrow> (c # p) # ps))"

fun join_with :: "code_unit \<Rightarrow> jsstring list \<Rightarrow> jsstring" where
  "join_with sep [] = []"
| "join_with sep [p] = p"
| "join_with sep (p # q # ps) = p @ sep # join_with sep (q # ps)"

section \<open>The balance pattern\<close>

text \<open>
  \<^verbatim>\<open>/([\d\s.]+)\s*(Kilogram|Tonne|kg|TNE)/i\<close>, as the backtracking matcher runs it.

  Under the \<^verbatim>\<open>i\<close> flag (without \<^verbatim>\<open>u\<close>) two code units match when their
  canonical forms are equal; the canonical form of an ASCII letter is its upper case, and
  a code unit from 128 on never has an ASCII canonical form.  The pattern's literals are
  ASCII letters, so \<open>canonicalize\<close> only has to fold ASCII.
\<close>

definition canonicalize :: "code_unit \<Rightarrow> code_unit" where
  "canonicalize c = (if 97 \<le> c \<and> c \<le> 122 then c - 32 else c)"

definition in_class :: "code_unit \<Rightarrow> bool" where
  "in_class c = (is_digit c \<or> is_ws c \<or> c = 46)"

text \<open>A literal of the pattern at the start of the text; the result is the text matched.\<close>

fun match_literal :: "jsstring \<Rightarrow> jsstring \<Rightarrow> jsstring option" where
  "match_literal [] s = Some []"
| "match_literal (p # ps) [] = None"
| "match_literal (p # ps) (c # cs) =
     (if canonicalize c = canonicalize p then map_option ((#) c) (match_literal ps cs)
      else None)"

text \<open>The alternation, tried left to right.\<close>

definition match_unit :: "jsstring \<Rightarrow> jsstring option" where
  "match_unit s =
     (case match_literal (js ''Kilogram'') s of Some u \<Rightarrow> Some u | None \<Rightarrow>
      (case match_literal (js ''Tonne'') s of Some u \<Rightarrow> Some u | None \<Rightarrow>
       (case match_literal (js ''kg'') s of Some u \<Rightarrow> Some u | None \<Rightarrow>
        match_literal (js ''TNE'') s)))"

text \<open>
  \<^verbatim>\<open>\s*\<close> followed by the alternation: greedy, so one more white space is tried first
  and given back when the rest fails.  The result is group 2.
\<close>

fun match_space :: "jsstring \<Rightarrow> jsstring option" where
  "match_space [] = match_unit []"
| "match_space (c # cs) =
     (case (if is_ws c then match_space cs else None) of
        Some u \<Rightarrow> Some u
      | None \<Rightarrow> match_unit (c # cs))"

text \<open>
  \<^verbatim>\<open>[\d\s.]+\<close> with \<open>acc\<close> (not empty) consumed so far: greedy in the same way.  The
  result is (group 1, group 2).
\<close>

fun match_number :: "jsstring \<Rightarrow> jsstring \<Rightarrow> (jsstring \<times> jsstring) option" where
  "match_number acc [] = map_option (Pair acc) (match_space [])"
| "match_number acc (c # cs) =
     (case (if in_class c then match_number (acc @ [c]) cs else None) of
        Some r \<Rightarrow> Some r
      | None \<Rightarrow> map_option (Pair acc) (match_space (c # cs)))"

definition match_here :: "jsstring \<Rightarrow> (jsstring \<times> jsstring) option" where
  "match_here s =
     (case s of [] \<Rightarrow> None
      | c # cs \<Rightarrow> if in_class c then match_number [c] cs else None)"

text \<open>\<^verbatim>\<open>text.match(re)\<close>: the leftmost start position that matches; \<open>None\<close> is null.\<close>

fun regex_match :: "jsstring \<Rightarrow> (jsstring \<times> jsstring) option" where
  "regex_match [] = None"
| "regex_match (c # cs) =
     (case match_here (c # cs) of Some r \<Rightarrow> Some r | None \<Rightarrow> regex_match cs)"

section \<open>Numbers\<close>

text \<open>
  A JavaScript Number is an IEEE 754 double: not a number, an infinity, or a finite value
  \<open>m * 2 ^ e\<close>, kept here as the rational it denotes.  The negative zero is identified
  with zero: this program prints it as \<^verbatim>\<open>0\<close> and adds 1 to it, which do not tell
  them apart.
\<close>

datatype number = NaN | PosInf | NegInf | Finite rat

definition pow2 :: "int \<Rightarrow> rat" where
  "pow2 e = (if 0 \<le> e then 2 ^ nat e else 1 / 2 ^ nat (- e))"

definition pow10 :: "int \<Rightarrow> rat" where
  "pow10 e = (if 0 \<le> e then 10 ^ nat e else 1 / 10 ^ nat (- e))"

text \<open>For \<open>0 < q\<close>: the \<open>e\<close> with \<open>2 ^ e \<le> q < 2 ^ (e + 1)\<close>.\<close>

definition ilog2 :: "rat \<Rightarrow> int" where
  "ilog2 q = (let (a, b) = quotient_of q; d = bitlen a - bitlen b
              in if pow2 d \<le> q then d else d - 1)"

definition round_half_even :: "rat \<Rightarrow> int" where
  "round_half_even x =
     (let f = \<lfloor>x\<rfloor>; r = x - of_int f
      in if r < 1 / 2 then f else if 1 / 2 < r then f + 1
         else if even f then f else f + 1)"

text \<open>
  The Number value for a real: the nearest double, ties to even.  For \<open>q \<noteq> 0\<close>, with
  \<open>2 ^ e \<le> \<bar>q\<bar> < 2 ^ (e + 1)\<close>, the doubles around \<open>\<bar>q\<bar>\<close> are the multiples of
  \<open>2 ^ (e - 52)\<close> (53 significant bits); below \<open>2 ^ - 1022\<close> the spacing stays
  \<open>2 ^ - 1074\<close>, that of the subnormal numbers.  The multiple \<open>m * 2 ^ (e - 52)\<close> reaches
  \<open>2 ^ 1024\<close>, and the result is an infinity, when \<open>1024 \<le> e\<close>, or \<open>e = 1023\<close> and \<open>m\<close>
  has been rounded up to \<open>2 ^ 53\<close>.
\<close>

definition round_to_double :: "rat \<Rightarrow> number" where
  "round_to_double q =
     (if q = 0 then Finite 0
      else let e = max (ilog2 \<bar>q\<bar>) (- 1022);
               m = round_half_even (\<bar>q\<bar> / pow2 (e - 52))
           in if 1024 \<le> e \<or> (e = 1023 \<and> 2 ^ 53 \<le> m) then (if q < 0 then NegInf else PosInf)
              else Finite ((if q < 0 then - 1 else 1) * (of_int m * pow2 (e - 52))))"

text \<open>\<^verbatim>\<open>x * y\<close> and \<^verbatim>\<open>x + y\<close> on Numbers.\<close>

definition num_sign :: "number \<Rightarrow> int" where
  "num_sign x =
     (case x of NaN \<Rightarrow> 0 | PosInf \<Rightarrow> 1 | NegInf \<Rightarrow> - 1
      | Finite q \<Rightarrow> if q < 0 then - 1 else if 0 < q then 1 else 0)"

definition num_mul :: "number \<Rightarrow> number \<Rightarrow> number" where
  "num_mul x y =
     (case (x, y) of
        (Finite a, Finite b) \<Rightarrow> round_to_double (a * b)
      | (NaN, _) \<Rightarrow> NaN
      | (_, NaN) \<Rightarrow> NaN
      | _ \<Rightarrow> (if num_sign x * num_sign y = 0 then NaN
              else if 0 < num_sign x * num_sign y then PosInf else NegInf))"

definition num_add :: "number \<Rightarrow> number \<Rightarrow> number" where
  "num_add x y =
     (case (x, y) of
        (Finite a, Finite b) \<Rightarrow> round_to_double (a + b)
      | (NaN, _) \<Rightarrow> NaN
      | (_, NaN) \<Rightarrow> NaN
      | (PosInf, NegInf) \<Rightarrow> NaN
      | (NegInf, PosInf) \<Rightarrow> NaN
      | (PosInf, _) \<Rightarrow> PosInf
      | (NegInf, _) \<Rightarrow> NegInf
      | (_, PosInf) \<Rightarrow> PosInf
      | (_, NegInf) \<Rightarrow> NegInf)"

text \<open>
  \<^verbatim>\<open>Math.round\<close>: the nearest integer, a half going up.  The result of a double is a
  double (from \<open>2 ^ 52\<close> on every double is an integer already).
\<close>

definition Math_round :: "number \<Rightarrow> number" where
  "Math_round x = (case x of Finite q \<Rightarrow> Finite (of_int \<lfloor>q + 1 / 2\<rfloor>) | _ \<Rightarrow> x)"

subsection \<open>Reading numbers\<close>

definition digit_val :: "code_unit \<Rightarrow> int" where
  "digit_val c = uint c - 48"

definition digits_value :: "jsstring \<Rightarrow> int" where
  "digits_value ds = foldl (\<lambda>a c. 10 * a + digit_val c) 0 ds"

text \<open>
  An ExponentPart at the start of the text (\<^verbatim>\<open>e\<close> or \<^verbatim>\<open>E\<close>, an optional sign, at
  least one digit); 0 when there is none.
\<close>

definition exponent_part :: "jsstring \<Rightarrow> int" where
  "exponent_part s =
     (case s of [] \<Rightarrow> 0
      | c # r \<Rightarrow>
         if c = 101 \<or> c = 69 then
           (case r of [] \<Rightarrow> 0
            | d # r' \<Rightarrow>
               if d = 45 then - digits_value (takeWhile is_digit r')
               else if d = 43 then digits_value (takeWhile is_digit r')
               else digits_value (takeWhile is_digit r))
         else 0)"

text \<open>
  The value of the longest prefix that is a StrUnsignedDecimalLiteral other than
  \<^verbatim>\<open>Infinity\<close> (digits, an optional point and digits, an optional exponent; or a point
  and digits); \<open>None\<close> when no prefix is one.
\<close>

definition unsigned_decimal :: "jsstring \<Rightarrow> rat option" where
  "unsigned_decimal s =
     (let ip = takeWhile is_digit s; r1 = dropWhile is_digit s
      in case r1 of
           [] \<Rightarrow> if ip = [] then None else Some (of_int (digits_value ip))
         | c # r2 \<Rightarrow>
            if c = 46 then
              (let fp = takeWhile is_digit r2; r3 = dropWhile is_digit r2
               in if ip = [] \<and> fp = [] then None
                  else Some ((of_int (digits_value ip)
                              + of_int (digits_value fp) / 10 ^ length fp)
                             * pow10 (exponent_part r3)))
            else if ip = [] then None
            else Some (of_int (digits_value ip) * pow10 (exponent_part r1)))"

definition unsigned_literal :: "jsstring \<Rightarrow> number" where
  "unsigned_literal s =
     (if take 8 s = js ''Infinity'' then PosInf
      else (case unsigned_decimal s of None \<Rightarrow> NaN | Some q \<Rightarrow> round_to_double q))"

definition negate :: "number \<Rightarrow> number" where
  "negate x = (case x of NaN \<Rightarrow> NaN | PosInf \<Rightarrow> NegInf | NegInf \<Rightarrow> PosInf | Finite q \<Rightarrow> Finite (- q))"

text \<open>\<^verbatim>\<open>parseFloat(s)\<close>.\<close>

definition parseFloat :: "jsstring \<Rightarrow> number" where
  "parseFloat s =
     (case trimStart s of
        [] \<Rightarrow> NaN
      | c # r \<Rightarrow>
         if c = 45 then negate (unsigned_literal r)
         else if c = 43 then unsigned_literal r
         else unsigned_literal (c # r))"

text \<open>
  \<^verbatim>\<open>parseInt(s)\<close> with no radix: white space, a sign, then the digits of radix 10, or
  of radix 16 after \<^verbatim>\<open>0x\<close> or \<^verbatim>\<open>0X\<close>; NaN when no digit is there.
\<close>

definition is_hex_digit :: "code_unit \<Rightarrow> bool" where
  "is_hex_digit c = (is_digit c \<or> (97 \<le> c \<and> c \<le> 102) \<or> (65 \<le> c \<and> c \<le> 70))"

definition hex_val :: "code_unit \<Rightarrow> int" where
  "hex_val c = (if is_digit c then uint c - 48 else if 97 \<le> c then uint c - 87 else uint c - 55)"

definition hex_value :: "jsstring \<Rightarrow> int" where
  "hex_value ds = foldl (\<lambda>a c. 16 * a + hex_val c) 0 ds"

definition parse_digits :: "jsstring \<Rightarrow> rat option" where
  "parse_digits s =
     (if take 2 s = js ''0x'' \<or> take 2 s = js ''0X'' then
        (let z = takeWhile is_hex_digit (drop 2 s)
         in if z = [] then None else Some (of_int (hex_value z)))
      else
        (let z = takeWhile is_digit s
         in if z = [] then None else Some (of_int (digits_value z))))"

definition parseInt :: "jsstring \<Rightarrow> number" where
  "parseInt s =
     (case trimStart s of
        [] \<Rightarrow> NaN
      | c # r \<Rightarrow>
         if c = 45 then
           (case parse_digits r of None \<Rightarrow> NaN | Some q \<Rightarrow> round_to_double (- q))
         else if c = 43 then
           (case parse_digits r of None \<Rightarrow> NaN | Some q \<Rightarrow> round_to_double q)
         else
           (case parse_digits (c # r) of None \<Rightarrow> NaN | Some q \<Rightarrow> round_to_double q))"

subsection \<open>Printing numbers\<close>

text \<open>The decimal digits of an integer \<open>0 \<le> n\<close>, and how many they are for \<open>0 < n\<close>.\<close>

function dec :: "int \<Rightarrow> jsstring" where
  "dec n = (if n < 10 then [of_int (48 + n)] else dec (n div 10) @ [of_int (48 + n mod 10)])"
  by pat_completeness auto
termination
  by (relation "measure nat") auto

function decimal_length :: "int \<Rightarrow> int" where
  "decimal_length n = (if n \<le> 0 then 0 else decimal_length (n div 10) + 1)"
  by pat_completeness auto
termination
  by (relation "measure nat") auto

text \<open>For \<open>0 < x\<close>: the \<open>n\<close> with \<open>10 ^ (n - 1) \<le> x < 10 ^ n\<close>.\<close>

definition decimal_pos :: "rat \<Rightarrow> int" where
  "decimal_pos x =
     (if 1 \<le> x then decimal_length \<lfloor>x\<rfloor>
      else 1 - decimal_length (\<lceil>1 / x\<rceil> - 1))"

text \<open>
  Number::toString looks for integers \<open>n\<close>, \<open>k\<close>, \<open>s\<close> with \<open>s\<close> of \<open>k\<close> digits,
  \<open>s * 10 ^ (n - k)\<close> a real that rounds to \<open>x\<close>, and \<open>k\<close> as small as possible; among
  several \<open>s\<close> the one nearest to \<open>x\<close>, then the even one.  \<open>digit_candidates x k\<close> are
  the pairs \<open>(n, s)\<close> for one \<open>k\<close>; 17 digits are enough for every double, so the
  default \<open>(0, 1, 0)\<close> of \<open>shortest_digits\<close> is not reached for one.
\<close>

definition digit_candidates :: "rat \<Rightarrow> nat \<Rightarrow> (int \<times> int) list" where
  "digit_candidates x k =
     filter (\<lambda>(n, s). 10 ^ (k - 1) \<le> s \<and> s < 10 ^ k
                     \<and> round_to_double (of_int s * pow10 (n - int k)) = Finite x)
       (concat (map (\<lambda>n. [(n, \<lfloor>x / pow10 (n - int k)\<rfloor>), (n, \<lfloor>x / pow10 (n - int k)\<rfloor> + 1)])
                    [decimal_pos x, decimal_pos x + 1]))"

definition nearer :: "rat \<Rightarrow> nat \<Rightarrow> int \<times> int \<Rightarrow> int \<times> int \<Rightarrow> int \<times> int" where
  "nearer x k a b =
     (let da = \<bar>of_int (snd a) * pow10 (fst a - int k) - x\<bar>;
          db = \<bar>of_int (snd b) * pow10 (fst b - int k) - x\<bar>
      in if db < da \<or> (db = da \<and> even (snd b) \<and> odd (snd a)) then b else a)"

definition shortest_digits :: "rat \<Rightarrow> int \<times> nat \<times> int" where
  "shortest_digits x =
     (case find (\<lambda>k. digit_candidates x k \<noteq> []) [1 ..< 18] of
        None \<Rightarrow> (0, 1, 0)
      | Some k \<Rightarrow>
         (case digit_candidates x k of
            [] \<Rightarrow> (0, 1, 0)
          | c # cs \<Rightarrow> (case foldl (nearer x k) c cs of (n, s) \<Rightarrow> (n, k, s))))"

definition positive_toString :: "rat \<Rightarrow> jsstring" where
  "positive_toString x =
     (case shortest_digits x of (n, k, s) \<Rightarrow>
        let ds = dec s in
        if int k \<le> n \<and> n \<le> 21 then ds @ replicate (nat (n - int k)) 48
        else if 0 < n \<and> n \<le> 21 then take (nat n) ds @ 46 # drop (nat n) ds
        else if - 6 < n \<and> n \<le> 0 then js ''0.'' @ replicate (nat (- n)) 48 @ ds
        else
          let e = n - 1; es = (if e < 0 then 45 else 43) # dec \<bar>e\<bar>
          in if k = 1 then ds @ 101 # es else take 1 ds @ 46 # drop 1 ds @ 101 # es)"

text \<open>What a template literal puts for a Number.\<close>

definition Number_toString :: "number \<Rightarrow> jsstring" where
  "Number_toString x =
     (case x of
        NaN \<Rightarrow> js ''NaN''
      | PosInf \<Rightarrow> js ''Infinity''
      | NegInf \<Rightarrow> js ''-Infinity''
      | Finite q \<Rightarrow>
          if q = 0 then js ''0''
          else if q < 0 then 45 # positive_toString (- q)
          else positive_toString q)"

section \<open>The row scan run in the page\<close>

text \<open>
  The callback given to \<^verbatim>\<open>page.evaluate\<close>.  Of the document it reads, for each
  \<^verbatim>\<open>tr\<close> in document order, the \<^verbatim>\<open>textContent\<close> of its \<^verbatim>\<open>td\<close> elements: a table
  row is the list of these texts.
\<close>

type_synonym table_row = "jsstring list"

record quota_record =
  orderNumber :: jsstring
  origin :: jsstring
  startDate :: jsstring
  endDate :: jsstring
  balance :: jsstring
  balanceKg :: number
  unit :: jsstring
  moreInfoUrl :: jsstring
  scrapedAt :: jsstring

text \<open>
  One turn of the loop: \<open>None\<close> is \<^verbatim>\<open>continue\<close>, \<open>Some r\<close> is \<^verbatim>\<open>return r\<close>.
  \<open>now\<close> is what \<^verbatim>\<open>new Date().toISOString()\<close> gives in the page.
\<close>

definition row_body :: "jsstring \<Rightarrow> jsstring \<Rightarrow> table_row \<Rightarrow> quota_record option" where
  "row_body now ordNum cells =
     (if length cells < 5 then None
      else if trim (cells ! 0) \<noteq> ordNum then None
      else
        let origin' = trim (cells ! 1);
            startDate' = trim (cells ! 2);
            endDate' = trim (cells ! 3);
            balanceText = trim (cells ! 4)
        in case regex_match balanceText of
             None \<Rightarrow> None
           | Some (m1, m2) \<Rightarrow>
               let rawValue = parseFloat (filter (\<lambda>c. \<not> is_ws c) m1);
                   unit' = toLowerCase m2;
                   isTonne = (take 1 unit' = js ''t'' \<or> unit' = js ''tne'');
                   balanceKg' = (if isTonne then Math_round (num_mul rawValue (Finite 1000))
                                 else rawValue)
               in Some \<lparr>orderNumber = ordNum,
                         origin = origin',
                         startDate = startDate',
                         endDate = endDate',
                         balance = Number_toString (Math_round balanceKg') @ js '' Kilogram'',
                         balanceKg = Math_round balanceKg',
                         unit = js ''Kilogram'',
                         moreInfoUrl =
                           js ''https://ec.europa.eu/taxation_customs/dds2/taric/quota_tariff_details.jsp?Lang=en&StartDate=''
                           @ join_with 45 (rev (split_on 45 startDate'))
                           @ js ''&Code='' @ ordNum,
                         scrapedAt = now\<rparr>)"

fun scan_rows :: "jsstring \<Rightarrow> jsstring \<Rightarrow> table_row list \<Rightarrow> quota_record option" where
  "scan_rows now ordNum [] = None"
| "scan_rows now ordNum (cells # rows) =
     (case row_body now ordNum cells of
        Some r \<Rightarrow> Some r
      | None \<Rightarrow> scan_rows now ordNum rows)"

section \<open>The request handler\<close>

text \<open>
  What the handler does to the outside is a sequence of calls; what the outside does is
  given by an environment: each call returns or throws (an awaited promise that rejects
  throws).  A query parameter is absent (\<open>None\<close>) or a string; a parameter that is given
  once is a string.  The record is taken as the callback returns it: what the transport
  from the page to the server does to it is not modelled.
\<close>

datatype 'a outcome = Returns 'a | Throws jsstring

datatype body =
    Missing_required_parameters "jsstring option" "jsstring option" "jsstring option"
  | Quota_not_found jsstring jsstring jsstring
  | Success_data quota_record jsstring
  | Scraping_failed jsstring jsstring jsstring jsstring

datatype event =
    Launch
  | NewPage
  | SetUserAgent
  | Goto jsstring
  | Evaluate jsstring
  | Close
  | Json nat body

record env =
  launch :: "unit outcome"
  newPage :: "unit outcome"
  setUserAgent :: "unit outcome"
  goto :: "jsstring \<Rightarrow> unit outcome"
  document :: "table_row list"
  evaluate :: "unit outcome"
  close :: "nat \<Rightarrow> unit outcome"
  json :: "nat \<Rightarrow> unit outcome"
  page_now :: jsstring
  server_now :: jsstring

text \<open>
  \<open>close e i\<close> is what the call number \<open>i\<close> (from 0) of \<^verbatim>\<open>browser.close()\<close> does,
  \<open>json e st\<close> what sending the response of status \<open>st\<close> does, \<open>evaluate e\<close> whether the
  evaluation in the page comes back (\<open>document e\<close> is what it reads).
\<close>

definition quota_url :: "jsstring \<Rightarrow> jsstring \<Rightarrow> jsstring \<Rightarrow> jsstring" where
  "quota_url orderNumber' year' origin' =
     (let currentYear = parseInt year';
          nextYear = num_add currentYear (Finite 1)
      in js ''https://ec.europa.eu/taxation_customs/dds2/taric/quota_consultation.jsp?Lang=en&Code=''
         @ orderNumber' @ js ''&Origin='' @ origin' @ js ''&Expand=true&Year=''
         @ Number_toString currentYear @ js ''&Year='' @ Number_toString nextYear)"

text \<open>
  The \<^verbatim>\<open>try\<close> block: the calls made, whether \<^verbatim>\<open>browser\<close> has been assigned, and
  how the block ends.
\<close>

definition try_block ::
  "env \<Rightarrow> jsstring \<Rightarrow> jsstring \<Rightarrow> jsstring \<Rightarrow> event list \<times> bool \<times> unit outcome" where
  "try_block e orderNumber' year' origin' =
     (case launch e of
        Throws m \<Rightarrow> ([Launch], False, Throws m)
      | Returns _ \<Rightarrow>
     (case newPage e of
        Throws m \<Rightarrow> ([Launch, NewPage], True, Throws m)
      | Returns _ \<Rightarrow>
     (case setUserAgent e of
        Throws m \<Rightarrow> ([Launch, NewPage, SetUserAgent], True, Throws m)
      | Returns _ \<Rightarrow>
     (let url = quota_url orderNumber' year' origin';
          t4 = [Launch, NewPage, SetUserAgent, Goto url]
      in case goto e url of
        Throws m \<Rightarrow> (t4, True, Throws m)
      | Returns _ \<Rightarrow>
     (let t5 = t4 @ [Evaluate orderNumber']
      in case evaluate e of
        Throws m \<Rightarrow> (t5, True, Throws m)
      | Returns _ \<Rightarrow>
     (let result = scan_rows (page_now e) orderNumber' (document e);
          t6 = t5 @ [Close]
      in case close e 0 of
        Throws m \<Rightarrow> (t6, True, Throws m)
      | Returns _ \<Rightarrow>
     (case result of
        None \<Rightarrow>
          (t6 @ [Json 404 (Quota_not_found orderNumber' origin' year')], True, json e 404)
      | Some r \<Rightarrow>
          (t6 @ [Json 200 (Success_data r (server_now e))], True, json e 200))))))))"

text \<open>
  \<^verbatim>\<open>app.get('/api/quota', ...)\<close>: the calls made and how the handler ends (\<open>Throws\<close>:
  its promise rejects).  \<^verbatim>\<open>!p\<close> holds of an absent parameter and of the empty string.
\<close>

definition falsy :: "jsstring option \<Rightarrow> bool" where
  "falsy p = (p = None \<or> p = Some [])"

definition handler ::
  "env \<Rightarrow> jsstring option \<Rightarrow> jsstring option \<Rightarrow> jsstring option \<Rightarrow> event list \<times> unit outcome" where
  "handler e orderNumber' year' origin' =
     (if falsy orderNumber' \<or> falsy year' \<or> falsy origin' then
        ([Json 400 (Missing_required_parameters orderNumber' year' origin')], json e 400)
      else
        (case try_block e (the orderNumber') (the year') (the origin') of
           (t, browser, Returns _) \<Rightarrow> (t, Returns ())
         | (t, browser, Throws m) \<Rightarrow>
             (let failed = Json 500 (Scraping_failed m (the orderNumber') (the origin') (the year'))
              in if browser then
                   (case close e (count_list t Close) of
                      Throws m' \<Rightarrow> (t @ [Close], Throws m')
                    | Returns _ \<Rightarrow> (t @ [Close, failed], json e 500))
                 else (t @ [failed], json e 500))))"

text \<open>
  Writing to the console is left out: it changes nothing the handler reads.

  Inputs used as examples: an environment where every call returns, with a given
  document, and rows of a quota (with the record the scan gives for them).
\<close>

definition all_return :: "table_row list \<Rightarrow> env" where
  "all_return rows =
     \<lparr>launch = Returns (), newPage = Returns (), setUserAgent = Returns (),
      goto = (\<lambda>_. Returns ()), document = rows, evaluate = Returns (),
      close = (\<lambda>_. Returns ()), json = (\<lambda>_. Returns ()),
      page_now = js ''2025-06-01T10:00:00.000Z'', server_now = js ''2025-06-01T10:00:01.000Z''\<rparr>"

definition brazil_row :: "jsstring \<Rightarrow> table_row" where
  "brazil_row balanceText =
     [js ''098701'', js ''Brazil'', js ''01-01-2025'', js ''31-12-2025'', balanceText]"

definition brazil_record :: "jsstring \<Rightarrow> number \<Rightarrow> quota_record" where
  "brazil_record balance' balanceKg' =
     \<lparr>orderNumber = js ''098701'', origin = js ''Brazil'', startDate = js ''01-01-2025'',
      endDate = js ''31-12-2025'', balance = balance', balanceKg = balanceKg',
      unit = js ''Kilogram'',
      moreInfoUrl = js ''https://ec.europa.eu/taxation_customs/dds2/taric/quota_tariff_details.jsp?Lang=en&StartDate=2025-01-01&Code=098701'',
      scrapedAt = js ''2025-06-01T10:00:00.000Z''\<rparr>"

definition march_row :: table_row where
  "march_row = [js ''098701'', js ''Brazil'', js ''05-03-2025'', js ''31-12-2025'', js ''500 Tonne'']"

text \<open>
  Two environments where one call throws: sending the response of status 200, and the
  first call of \<^verbatim>\<open>browser.close()\<close>.
\<close>

definition response_fails :: "table_row list \<Rightarrow> env" where
  "response_fails rows =
     (all_return rows)\<lparr>json := (\<lambda>st. if st = 200 then Throws (js ''write EPIPE'') else Returns ())\<rparr>"

definition close_fails :: "table_row list \<Rightarrow> env" where
  "close_fails rows =
     (all_return rows)\<lparr>close := (\<lambda>i. if i = 0 then Throws (js ''Protocol error'') else Returns ())\<rparr>"

text \<open>The ASCII letters.\<close>

definition is_letter :: "code_unit \<Rightarrow> bool" where
  "is_letter c = ((65 \<le> c \<and> c \<le> 90) \<or> (97 \<le> c \<and> c \<le> 122))"

text \<open>
  What the record's \<open>balanceKg\<close> is meant to be, a whole number that is not negative;
  and the Numbers that are not below zero.
\<close>

definition whole_kg :: "number \<Rightarrow> bool" where
  "whole_kg x = (case x of Finite q \<Rightarrow> 0 \<le> q \<and> q = of_int \<lfloor>q\<rfloor> | _ \<Rightarrow> False)"

definition nonneg :: "number \<Rightarrow> bool" where
  "nonneg x = (case x of NaN \<Rightarrow> True | PosInf \<Rightarrow> True | NegInf \<Rightarrow> False | Finite q \<Rightarrow> 0 \<le> q)"

section \<open>Facts: numbers that are kept exactly\<close>

lemma floor_half: "\<lfloor>1 / 2 :: rat\<rfloor> = 0"
  by (simp add: floor_eq_iff)

lemma Math_round_idem: "Math_round (Math_round x) = Math_round x"
  by (cases x) (simp_all add: Math_round_def floor_half)

text \<open>Integers up to \<open>2 ^ 53\<close> are doubles: rounding leaves them as they are.\<close>

lemma round_half_even_int [simp]: "round_half_even (of_int z) = z"
  by (simp add: round_half_even_def)

lemma bitlen_ge_1: "0 < n \<Longrightarrow> 1 \<le> bitlen n"
  by (simp add: bitlen_ge_iff_power)

lemma ilog2_int:
  assumes "0 < n"
  shows "ilog2 (of_int n) = bitlen n - 1"
proof -
  have q: "quotient_of (of_int n :: rat) = (n, 1)"
    by (metis Rat.of_int_def quotient_of_int)
  have b1: "bitlen 1 = 1"
    by (simp add: bitlen_alt_def)
  have ge: "1 \<le> bitlen n"
    using assms by (simp add: bitlen_ge_iff_power)
  have "(2::int) ^ nat (bitlen n - 1) \<le> n"
    using bitlen_bounds [OF assms] by simp
  then have "(of_int (2 ^ nat (bitlen n - 1)) :: rat) \<le> of_int n"
    by (simp only: of_int_le_iff)
  then have "pow2 (bitlen n - 1) \<le> of_int n"
    using ge by (simp add: pow2_def)
  then show ?thesis
    by (simp add: ilog2_def q b1)
qed

lemma round_to_double_small:
  assumes "0 \<le> n" and "n < 2 ^ 53"
  shows "round_to_double (of_int n) = Finite (of_int n)"
proof (cases "n = 0")
  case True
  then show ?thesis by (simp add: round_to_double_def)
next
  case False
  then have pos: "0 < n" using assms by simp
  define d where "d = bitlen n - 1"
  have d0: "0 \<le> d"
    using bitlen_ge_1 [OF pos] by (simp add: d_def)
  have "bitlen n \<le> 53"
    using assms by (simp add: bitlen_le_iff_power)
  then have d52: "d \<le> 52"
    by (simp add: d_def)
  have il: "ilog2 (of_int n) = d"
    using ilog2_int [OF pos] by (simp add: d_def)
  have p: "pow2 (d - 52) = 1 / 2 ^ nat (52 - d)"
    using d52 by (cases "d = 52") (simp_all add: pow2_def)
  have sc: "(of_int n :: rat) / pow2 (d - 52) = of_int (n * 2 ^ nat (52 - d))"
    by (simp add: p)
  have restore: "(of_int (n * 2 ^ nat (52 - d)) :: rat) * pow2 (d - 52) = of_int n"
    by (simp add: p)
  have mx: "max d (- 1022) = d"
    using d0 by simp
  have "round_to_double (of_int n) = Finite (of_int (round_half_even (of_int n / pow2 (d - 52))) * pow2 (d - 52))"
    using pos d52 by (simp add: round_to_double_def il mx Let_def)
  also have "\<dots> = Finite (of_int n)"
    unfolding sc round_half_even_int restore ..
  finally show ?thesis .
qed

lemma round_to_double_2_53: "round_to_double 9007199254740992 = Finite 9007199254740992"
  by code_simp

lemma round_to_double_exact:
  assumes "0 \<le> n" and "n \<le> 2 ^ 53"
  shows "round_to_double (of_int n) = Finite (of_int n)"
proof (cases "n = 2 ^ 53")
  case True
  then show ?thesis using round_to_double_2_53 by simp
next
  case False
  then show ?thesis using assms by (intro round_to_double_small) simp_all
qed

lemma round_half_even_ge_floor: "\<lfloor>x\<rfloor> \<le> round_half_even x"
  by (simp add: round_half_even_def Let_def)

lemma round_to_double_large:
  assumes "2 ^ 53 \<le> y"
  shows "round_to_double (of_int y) = PosInf
         \<or> (\<exists>r. round_to_double (of_int y) = Finite r \<and> 2 ^ 53 \<le> r)"
proof -
  have pos: "0 < y"
    using assms by (rule less_le_trans [rotated]) simp
  define e where "e = bitlen y - 1"
  have "54 \<le> bitlen y"
    using assms by (simp add: bitlen_ge_iff_power)
  then have e53: "53 \<le> e"
    by (simp add: e_def)
  have il: "ilog2 (of_int y) = e"
    using ilog2_int [OF pos] by (simp add: e_def)
  have p: "pow2 (e - 52) = 2 ^ nat (e - 52)"
    using e53 by (simp add: pow2_def)
  define m where "m = round_half_even (of_int y / 2 ^ nat (e - 52))"
  have "(2::int) ^ nat e \<le> y"
    using bitlen_bounds [OF pos] by (simp add: e_def)
  then have "(of_int (2 ^ nat e) :: rat) \<le> of_int y"
    by (simp only: of_int_le_iff)
  then have ylow: "(2::rat) ^ nat e \<le> of_int y"
    by simp
  have split: "nat e = 52 + nat (e - 52)"
    using e53 by simp
  have "(2::rat) ^ 52 * 2 ^ nat (e - 52) \<le> of_int y"
    using ylow by (subst (asm) split) (simp add: power_add)
  then have "(2::rat) ^ 52 \<le> of_int y / 2 ^ nat (e - 52)"
    by (simp add: pos_le_divide_eq)
  then have "(of_int (2 ^ 52) :: rat) \<le> of_int y / 2 ^ nat (e - 52)"
    by simp
  then have "2 ^ 52 \<le> \<lfloor>(of_int y :: rat) / 2 ^ nat (e - 52)\<rfloor>"
    by (simp only: le_floor_iff)
  then have m52: "2 ^ 52 \<le> m"
    unfolding m_def by (rule order_trans [OF _ round_half_even_ge_floor])
  then have "(of_int (2 ^ 52) :: rat) \<le> of_int m"
    by (simp only: of_int_le_iff)
  then have "(2::rat) ^ 52 * 2 ^ nat (e - 52) \<le> of_int m * 2 ^ nat (e - 52)"
    by (intro mult_right_mono) simp_all
  then have "(2::rat) ^ nat e \<le> of_int m * 2 ^ nat (e - 52)"
    by (subst split) (simp add: power_add)
  moreover have "(2::rat) ^ 53 \<le> 2 ^ nat e"
    using e53 by (intro power_increasing) simp_all
  ultimately have r: "(2::rat) ^ 53 \<le> of_int m * 2 ^ nat (e - 52)"
    by (rule order_trans [rotated])
  have mx: "max e (- 1022) = e"
    using e53 by simp
  have ab: "\<bar>of_int y :: rat\<bar> = of_int y"
    using pos by simp
  have "round_to_double (of_int y) = PosInf
      \<or> round_to_double (of_int y) = Finite (of_int m * 2 ^ nat (e - 52))"
    using pos unfolding round_to_double_def Let_def ab il mx p m_def by simp
  then show ?thesis
    using r by auto
qed

lemma round_to_double_int_eq:
  assumes "0 \<le> y" and "0 \<le> x" and "x < 2 ^ 53"
  shows "round_to_double (of_int y) = Finite (of_int x) \<longleftrightarrow> y = x"
proof (cases "y < 2 ^ 53")
  case True
  then show ?thesis
    using round_to_double_small [OF assms(1) True] by simp
next
  case False
  then have "2 ^ 53 \<le> y" by simp
  from round_to_double_large [OF this]
  have "round_to_double (of_int y) \<noteq> Finite (of_int x)"
  proof
    assume "round_to_double (of_int y) = PosInf"
    then show ?thesis by simp
  next
    assume "\<exists>r. round_to_double (of_int y) = Finite r \<and> 2 ^ 53 \<le> r"
    then obtain r where r: "round_to_double (of_int y) = Finite r" "2 ^ 53 \<le> r"
      by blast
    have "(of_int x :: rat) < of_int (2 ^ 53)"
      using assms(3) by (simp only: of_int_less_iff)
    then have "(of_int x :: rat) < 2 ^ 53"
      by simp
    then show ?thesis
      using r by auto
  qed
  then show ?thesis
    using False assms(3) by auto
qed

section \<open>Facts: printing whole numbers\<close>

text \<open>
  Below \<open>2 ^ 53\<close> a whole number is printed with its own decimal digits: the shortest
  digits that round to it are its digits without the zeros at the end
  (\<open>Number_toString_int\<close>).
\<close>

declare dec.simps [simp del] decimal_length.simps [simp del]

lemma decimal_length_nonneg: "0 \<le> decimal_length x"
proof (induction x rule: decimal_length.induct)
  case (1 n)
  then show ?case by (subst decimal_length.simps) simp
qed

lemma decimal_length_pos: "0 < x \<Longrightarrow> 1 \<le> decimal_length x"
  using decimal_length_nonneg [of "x div 10"] by (subst decimal_length.simps) simp

lemma decimal_length_bounds:
  "0 < x \<Longrightarrow> 10 ^ nat (decimal_length x - 1) \<le> x \<and> x < 10 ^ nat (decimal_length x)"
proof (induction x rule: decimal_length.induct)
  case (1 n)
  show ?case
  proof (cases "n < 10")
    case True
    then have "n div 10 = 0" using "1.prems" by simp
    then have "decimal_length n = 1"
      using "1.prems" by (subst decimal_length.simps) (simp add: decimal_length.simps [of 0])
    then show ?thesis using True "1.prems" by simp
  next
    case False
    then have pos: "0 < n div 10" using "1.prems" by simp
    have dl: "decimal_length n = decimal_length (n div 10) + 1"
      using "1.prems" by (subst decimal_length.simps) simp
    from "1.IH" pos "1.prems"
    have ih: "10 ^ nat (decimal_length (n div 10) - 1) \<le> n div 10"
      "n div 10 < 10 ^ nat (decimal_length (n div 10))"
      by simp_all
    have ge1: "1 \<le> decimal_length (n div 10)"
      using pos by (rule decimal_length_pos)
    have e: "nat (decimal_length (n div 10)) = Suc (nat (decimal_length (n div 10) - 1))"
      using ge1 by simp
    have "10 * 10 ^ nat (decimal_length (n div 10) - 1) \<le> 10 * (n div 10)"
      using ih(1) by simp
    also have "\<dots> \<le> n" by simp
    finally have lo: "10 ^ nat (decimal_length n - 1) \<le> n"
      using e by (simp add: dl)
    have "n < 10 * (n div 10 + 1)" by simp
    also have "\<dots> \<le> 10 * 10 ^ nat (decimal_length (n div 10))"
      using ih(2) by simp
    finally have hi: "n < 10 ^ nat (decimal_length n)"
      using ge1 by (simp add: dl nat_add_distrib)
    show ?thesis using lo hi by simp
  qed
qed

lemma strip_zeros: "0 < x \<Longrightarrow> \<exists>z s. x = s * 10 ^ z \<and> s mod 10 \<noteq> 0 \<and> 0 < (s::int)"
proof (induction "nat x" arbitrary: x rule: less_induct)
  case less
  show ?case
  proof (cases "x mod 10 = 0")
    case False
    then have "x = x * 10 ^ 0 \<and> x mod 10 \<noteq> 0 \<and> 0 < x"
      using less.prems by simp
    then show ?thesis by blast
  next
    case True
    then have x: "x = 10 * (x div 10)" by presburger
    then have pos: "0 < x div 10" using less.prems by simp
    have "nat (x div 10) < nat x" using less.prems pos by simp
    from less.hyps [OF this pos] obtain z s where "x div 10 = s * 10 ^ z" "s mod 10 \<noteq> 0" "0 < s"
      by blast
    then have "x = s * 10 ^ Suc z \<and> s mod 10 \<noteq> 0 \<and> 0 < s"
      using x by simp
    then show ?thesis by blast
  qed
qed

lemma dec_times_10: "0 < t \<Longrightarrow> dec (10 * t) = dec t @ [48]"
  by (subst dec.simps) simp

lemma dec_shift: "0 < s \<Longrightarrow> dec (s * 10 ^ z) = dec s @ replicate z 48"
proof (induction z)
  case 0
  then show ?case by simp
next
  case (Suc z)
  have "dec (s * 10 ^ Suc z) = dec (10 * (s * 10 ^ z))"
    by (simp add: mult.commute mult.left_commute)
  also have "\<dots> = dec (s * 10 ^ z) @ [48]"
    using Suc.prems by (intro dec_times_10) simp
  finally show ?case
    using Suc by (simp add: replicate_append_same)
qed

lemma decimal_length_shift:
  "0 < s \<Longrightarrow> decimal_length (s * 10 ^ z) = decimal_length s + int z"
proof (induction z)
  case 0
  then show ?case by simp
next
  case (Suc z)
  have p: "0 < s * 10 ^ Suc z" using Suc.prems by simp
  have "decimal_length (s * 10 ^ Suc z) = decimal_length ((s * 10 ^ Suc z) div 10) + 1"
    using p by (subst decimal_length.simps) simp
  also have "(s * 10 ^ Suc z) div 10 = s * 10 ^ z" by simp
  finally show ?case using Suc by simp
qed

lemma pow10_nat: "pow10 (int j) = 10 ^ j"
  by (simp add: pow10_def)

lemma candidate_test:
  assumes "0 \<le> s" and "0 \<le> x" and "x < 2 ^ 53"
  shows "round_to_double (of_int s * 10 ^ j) = Finite (of_int x) \<longleftrightarrow> s * 10 ^ j = x"
proof -
  have e: "(of_int s :: rat) * 10 ^ j = of_int (s * 10 ^ j)"
    by simp
  have "0 \<le> s * 10 ^ j"
    using assms(1) by simp
  from round_to_double_int_eq [OF this assms(2,3)] show ?thesis
    unfolding e .
qed

lemma no_higher_power:
  assumes "x = s0 * 10 ^ z" and "s0 mod 10 \<noteq> (0::int)" and "z < j"
  shows "s * 10 ^ j \<noteq> x"
proof
  assume eq: "s * 10 ^ j = x"
  obtain d where j: "j = z + Suc d"
    using assms(3) by (auto dest: less_imp_Suc_add)
  have split: "s * 10 ^ j = (10 * (s * 10 ^ d)) * 10 ^ z"
    unfolding j power_add by simp
  have "(10 * (s * 10 ^ d)) * 10 ^ z = s0 * 10 ^ z"
    by (rule trans [OF split [symmetric] trans [OF eq assms(1)]])
  then have "10 * (s * 10 ^ d) = s0"
    unfolding mult_cancel_right by simp
  then have "s0 mod 10 = 0"
    by (metis mod_mult_self1_is_0)
  then show False
    using assms(2) by simp
qed

lemma floor_div_pow10: "\<lfloor>(of_int x :: rat) / 10 ^ j\<rfloor> = x div 10 ^ j"
  using floor_divide_of_int_eq [of x "10 ^ j", where ?'a = rat] by simp

lemma decimal_pos_int: "0 < x \<Longrightarrow> decimal_pos (of_int x) = decimal_length x"
  by (simp add: decimal_pos_def)

lemma digit_candidates_int:
  assumes "0 < x" and "x < 2 ^ 53" and "decimal_length x = int k + int j"
  shows "digit_candidates (of_int x) k
     = filter (\<lambda>(n, s). 10 ^ (k - 1) \<le> s \<and> s < 10 ^ k \<and> s * 10 ^ nat (n - int k) = x)
         [(int k + int j, x div 10 ^ j), (int k + int j, x div 10 ^ j + 1),
          (int k + int j + 1, x div 10 ^ Suc j), (int k + int j + 1, x div 10 ^ Suc j + 1)]"
proof -
  have dp: "decimal_pos (of_int x) = int k + int j"
    using assms(1,3) by (simp add: decimal_pos_int)
  have e: "pow10 (int k + int j - int k) = 10 ^ j" "pow10 (int k + int j + 1 - int k) = 10 ^ Suc j"
    by (simp_all add: pow10_def nat_add_distrib)
  have nn: "0 \<le> x div 10 ^ i" "0 \<le> x div 10 ^ i + 1" for i
    using assms(1) by (simp_all add: pos_imp_zdiv_nonneg_iff)
  have x0: "0 \<le> x"
    using assms(1) by simp
  note t = candidate_test [OF _ x0 assms(2)]
  have n: "nat (int k + int j - int k) = j" "nat (int k + int j + 1 - int k) = Suc j"
    by simp_all
  have "digit_candidates (of_int x) k
     = filter (\<lambda>(n, s). 10 ^ (k - 1) \<le> s \<and> s < 10 ^ k
                     \<and> round_to_double (of_int s * pow10 (n - int k)) = Finite (of_int x))
         [(int k + int j, x div 10 ^ j), (int k + int j, x div 10 ^ j + 1),
          (int k + int j + 1, x div 10 ^ Suc j), (int k + int j + 1, x div 10 ^ Suc j + 1)]"
    unfolding digit_candidates_def dp
    by (simp only: list.map concat.simps append.simps e floor_div_pow10)
  also have "\<dots> = filter (\<lambda>(n, s). 10 ^ (k - 1) \<le> s \<and> s < 10 ^ k \<and> s * 10 ^ nat (n - int k) = x)
         [(int k + int j, x div 10 ^ j), (int k + int j, x div 10 ^ j + 1),
          (int k + int j + 1, x div 10 ^ Suc j), (int k + int j + 1, x div 10 ^ Suc j + 1)]"
  proof (rule filter_cong [OF refl])
    fix c assume "c \<in> set [(int k + int j, x div 10 ^ j), (int k + int j, x div 10 ^ j + 1),
          (int k + int j + 1, x div 10 ^ Suc j), (int k + int j + 1, x div 10 ^ Suc j + 1)]"
    then consider "c = (int k + int j, x div 10 ^ j)" | "c = (int k + int j, x div 10 ^ j + 1)"
      | "c = (int k + int j + 1, x div 10 ^ Suc j)" | "c = (int k + int j + 1, x div 10 ^ Suc j + 1)"
      by auto
    then show "(case c of (n, s) \<Rightarrow> 10 ^ (k - 1) \<le> s \<and> s < 10 ^ k
                     \<and> round_to_double (of_int s * pow10 (n - int k)) = Finite (of_int x))
        = (case c of (n, s) \<Rightarrow> 10 ^ (k - 1) \<le> s \<and> s < 10 ^ k \<and> s * 10 ^ nat (n - int k) = x)"
    proof cases
      case 1
      then show ?thesis
        using t [OF nn(1), of j j] by (simp only: prod.case e n)
    next
      case 2
      then show ?thesis
        using t [OF nn(2), of j j] by (simp only: prod.case e n)
    next
      case 3
      then show ?thesis
        using t [OF nn(1), of "Suc j" "Suc j"] by (simp only: prod.case e n)
    next
      case 4
      then show ?thesis
        using t [OF nn(2), of "Suc j" "Suc j"] by (simp only: prod.case e n)
    qed
  qed
  finally show ?thesis .
qed

lemma candidates_none:
  assumes "0 < x" and "x < 2 ^ 53" and "x = s0 * 10 ^ z" and "s0 mod 10 \<noteq> 0"
    and "decimal_length x = int k + int j" and "z < j"
  shows "digit_candidates (of_int x) k = []"
proof -
  have "s * 10 ^ j \<noteq> x" "s * 10 ^ Suc j \<noteq> x" for s
    using no_higher_power [OF assms(3,4), of j s] no_higher_power [OF assms(3,4), of "Suc j" s]
      assms(6) by simp_all
  then show ?thesis
    unfolding digit_candidates_int [OF assms(1,2,5)] by (simp add: nat_add_distrib)
qed

lemma candidates_exact:
  assumes "0 < x" and "x < 2 ^ 53" and "x = s0 * 10 ^ z" and "s0 mod 10 \<noteq> 0" and "0 < s0"
    and "decimal_length s0 = int k"
  shows "digit_candidates (of_int x) k = [(int k + int z, s0)]"
proof -
  have len: "decimal_length x = int k + int z"
    using decimal_length_shift [OF assms(5), of z] assms(3,6) by simp
  have k1: "1 \<le> k"
    using decimal_length_pos [OF assms(5)] assms(6) by simp
  have range: "10 ^ (k - 1) \<le> s0" "s0 < 10 ^ k"
    using decimal_length_bounds [OF assms(5)] k1 by (simp_all add: assms(6) nat_diff_distrib)
  have d: "x div 10 ^ z = s0"
    using assms(3) by simp
  have up: "(s0 + 1) * 10 ^ z \<noteq> x"
    using assms(3) by simp
  have hi: "s * 10 ^ Suc z \<noteq> x" for s
    using no_higher_power [OF assms(3,4), of "Suc z" s] by simp
  show ?thesis
    unfolding digit_candidates_int [OF assms(1,2) len]
    using range up hi assms(3) by (simp add: d nat_add_distrib)
qed

lemma find_first_upt:
  assumes "a \<le> k" and "k < b" and "P k" and "\<forall>i. a \<le> i \<and> i < k \<longrightarrow> \<not> P i"
  shows "find P [a ..< b] = Some k"
proof -
  have "k - a < length [a ..< b] \<and> P ([a ..< b] ! (k - a)) \<and> k = [a ..< b] ! (k - a)
        \<and> (\<forall>j < k - a. \<not> P ([a ..< b] ! j))"
    using assms by auto
  then show ?thesis
    unfolding find_Some_iff by blast
qed

lemma decimal_length_2_53:
  assumes "0 < x" and "x < 2 ^ 53"
  shows "decimal_length x \<le> 16"
proof (rule ccontr)
  assume "\<not> decimal_length x \<le> 16"
  then have "16 \<le> decimal_length x - 1" by simp
  then have "16 \<le> nat (decimal_length x - 1)" by simp
  then have "(10::int) ^ 16 \<le> 10 ^ nat (decimal_length x - 1)"
    by (intro power_increasing) simp_all
  also have "\<dots> \<le> x"
    using decimal_length_bounds [OF assms(1)] by simp
  finally show False
    using assms(2) by simp
qed

lemma positive_toString_int:
  assumes "0 < x" and "x < 2 ^ 53"
  shows "positive_toString (of_int x) = dec x"
proof -
  from strip_zeros [OF assms(1)] obtain z s0 where x: "x = s0 * 10 ^ z" "s0 mod 10 \<noteq> 0" "0 < s0"
    by blast
  define k where "k = nat (decimal_length s0)"
  have k: "decimal_length s0 = int k"
    using decimal_length_nonneg [of s0] by (simp add: k_def)
  have k1: "1 \<le> k"
    using decimal_length_pos [OF x(3)] k by simp
  have len: "decimal_length x = int k + int z"
    using decimal_length_shift [OF x(3), of z] x(1) k by simp
  have k17: "k < 18" and L21: "int k + int z \<le> 21"
    using decimal_length_2_53 [OF assms] len by simp_all
  have here: "digit_candidates (of_int x) k = [(int k + int z, s0)]"
    using candidates_exact [OF assms x k] .
  have before: "digit_candidates (of_int x) i = []" if "1 \<le> i" "i < k" for i
  proof -
    have "decimal_length x = int i + int (z + (k - i))"
      using that len by simp
    moreover have "z < z + (k - i)"
      using that by simp
    ultimately show ?thesis
      using candidates_none [OF assms x(1,2)] by blast
  qed
  have "find (\<lambda>k. digit_candidates (of_int x) k \<noteq> []) [1 ..< 18] = Some k"
    using k1 k17 here before by (intro find_first_upt) simp_all
  then have "shortest_digits (of_int x) = (int k + int z, k, s0)"
    by (simp add: shortest_digits_def here)
  then have "positive_toString (of_int x) = dec s0 @ replicate z 48"
    using L21 by (simp add: positive_toString_def nat_add_distrib)
  then show ?thesis
    using dec_shift [OF x(3), of z] x(1) by simp
qed

lemma Number_toString_int:
  assumes "0 \<le> x" and "x < 2 ^ 53"
  shows "Number_toString (Finite (of_int x)) = dec x"
proof (cases "x = 0")
  case True
  then show ?thesis by (simp add: Number_toString_def js_def dec.simps)
next
  case False
  then show ?thesis
    using assms positive_toString_int [of x] by (simp add: Number_toString_def)
qed

section \<open>Facts: code units\<close>

lemma is_ws_range: "is_ws c \<Longrightarrow> unat c \<le> 32 \<or> 160 \<le> unat c"
  unfolding is_ws_def by (auto simp: word_le_nat_alt)

lemma is_digit_range: "is_digit c \<longleftrightarrow> 48 \<le> unat c \<and> unat c \<le> 57"
  unfolding is_digit_def by (auto simp: word_le_nat_alt)

lemma in_class_range: "in_class c \<Longrightarrow> unat c \<le> 57 \<or> 160 \<le> unat c"
  unfolding in_class_def using is_ws_range [of c] by (auto simp: is_digit_range)

lemma unat_lower: "unat (lower c) = (if 65 \<le> unat c \<and> unat c \<le> 90 then unat c + 32 else unat c)"
  by (auto simp: lower_def word_le_nat_alt unat_word_ariths)

lemma unat_canonicalize:
  "unat (canonicalize c) = (if 97 \<le> unat c \<and> unat c \<le> 122 then unat c - 32 else unat c)"
  by (auto simp: canonicalize_def word_le_nat_alt unat_sub)

lemma digit_not_ws: "is_digit c \<Longrightarrow> \<not> is_ws c"
  using is_ws_range [of c] by (auto simp: is_digit_range)

lemma digit_not_sign: "is_digit c \<Longrightarrow> c \<noteq> 45 \<and> c \<noteq> 43"
  by (auto simp: is_digit_range)

lemma minus_not_in_class: "\<not> in_class 45"
  by (simp add: in_class_def is_digit_def is_ws_def)

lemma lower_ws [simp]: "is_ws (lower c) = is_ws c"
proof (cases "65 \<le> unat c \<and> unat c \<le> 90")
  case True
  then have "\<not> is_ws c" "\<not> is_ws (lower c)"
    using is_ws_range [of c] is_ws_range [of "lower c"] by (auto simp: unat_lower)
  then show ?thesis by simp
next
  case False
  then have "lower c = c"
    by (simp add: word_unat_eq_iff unat_lower)
  then show ?thesis by simp
qed

lemma in_class_lower_id: "in_class c \<Longrightarrow> lower c = c"
  using in_class_range [of c] by (auto simp: word_unat_eq_iff unat_lower)

lemma lower_in_class [simp]: "in_class (lower c) = in_class c"
proof (cases "65 \<le> unat c \<and> unat c \<le> 90")
  case True
  then have "\<not> in_class c" "\<not> in_class (lower c)"
    using in_class_range [of c] in_class_range [of "lower c"] by (auto simp: unat_lower)
  then show ?thesis by simp
next
  case False
  then have "lower c = c"
    by (simp add: word_unat_eq_iff unat_lower)
  then show ?thesis by simp
qed

lemma canonicalize_lower [simp]: "canonicalize (lower c) = canonicalize c"
  by (auto simp: word_unat_eq_iff unat_canonicalize unat_lower)

lemma lower_idem [simp]: "lower (lower c) = lower c"
  by (auto simp: word_unat_eq_iff unat_lower)

lemma canonicalize_letter:
  assumes "is_letter p" and "canonicalize c = canonicalize p"
  shows "lower c = lower p"
  using assms
  by (auto simp: is_letter_def word_unat_eq_iff unat_canonicalize unat_lower word_le_nat_alt
           split: if_splits)

section \<open>Facts: reading numbers\<close>

lemma digit_val_nonneg: "is_digit c \<Longrightarrow> 0 \<le> digit_val c"
  by (simp add: is_digit_def digit_val_def word_le_def)

lemma foldl_digits_nonneg:
  "\<forall>c\<in>set ds. is_digit c \<Longrightarrow> 0 \<le> a \<Longrightarrow> 0 \<le> foldl (\<lambda>a c. 10 * a + digit_val c) a ds"
proof (induction ds arbitrary: a)
  case Nil
  then show ?case by simp
next
  case (Cons c cs)
  have "0 \<le> 10 * a + digit_val c"
    using Cons.prems digit_val_nonneg [of c] by simp
  then show ?case
    using Cons by simp
qed

lemma digits_value_nonneg: "\<forall>c\<in>set ds. is_digit c \<Longrightarrow> 0 \<le> digits_value ds"
  by (simp add: digits_value_def foldl_digits_nonneg)

lemma takeWhile_run:
  "\<forall>c\<in>set ds. P c \<Longrightarrow> rest = [] \<or> \<not> P (hd rest) \<Longrightarrow> takeWhile P (ds @ rest) = ds"
  by (cases rest) (simp_all add: takeWhile_append2)

lemma parseInt_digits:
  assumes "ds \<noteq> []" and "\<forall>c\<in>set ds. is_digit c"
    and "rest = [] \<or> \<not> is_digit (hd rest)"
    and "take 2 (ds @ rest) \<noteq> js ''0x'' \<and> take 2 (ds @ rest) \<noteq> js ''0X''"
  shows "parseInt (ds @ rest) = round_to_double (of_int (digits_value ds))"
proof -
  obtain c cs where ds: "ds = c # cs"
    using assms(1) by (cases ds) auto
  then have c: "is_digit c"
    using assms(2) by simp
  have tr: "trimStart (ds @ rest) = c # (cs @ rest)"
    using digit_not_ws [OF c] by (simp add: trimStart_def ds)
  have pd: "parse_digits (c # (cs @ rest)) = Some (of_int (digits_value ds))"
    using assms(1,4) takeWhile_run [OF assms(2,3)] by (simp add: parse_digits_def ds)
  show ?thesis
    using digit_not_sign [OF c] by (simp add: parseInt_def tr pd)
qed

lemma pow2_pos: "0 < pow2 e"
  by (simp add: pow2_def)

lemma pow10_pos: "0 < pow10 e"
  by (simp add: pow10_def)

lemma round_half_even_nonneg: "0 \<le> x \<Longrightarrow> 0 \<le> round_half_even x"
  by (auto simp: round_half_even_def Let_def)

lemma round_to_double_nonneg: "0 \<le> q \<Longrightarrow> nonneg (round_to_double q)"
proof (cases "q = 0")
  case True
  then show ?thesis by (simp add: round_to_double_def nonneg_def)
next
  case False
  assume "0 \<le> q"
  with False have pos: "0 < q" by simp
  have "0 \<le> \<bar>q\<bar> / pow2 e" for e
    using pow2_pos [of e] by simp
  then have "0 \<le> round_half_even (\<bar>q\<bar> / pow2 e)" for e
    by (rule round_half_even_nonneg)
  then have "(0::rat) \<le> of_int (round_half_even (\<bar>q\<bar> / pow2 e)) * pow2 e" for e
    using pow2_pos [of e] by simp
  then show ?thesis
    using pos by (simp add: round_to_double_def nonneg_def Let_def)
qed

lemma num_mul_nonneg: "nonneg x \<Longrightarrow> nonneg (num_mul x (Finite 1000))"
  by (cases x) (simp_all add: num_mul_def nonneg_def num_sign_def round_to_double_nonneg [unfolded nonneg_def])

lemma Math_round_nonneg:
  "nonneg x \<Longrightarrow> Math_round x = NaN \<or> Math_round x = PosInf \<or> whole_kg (Math_round x)"
  by (cases x) (simp_all add: Math_round_def nonneg_def whole_kg_def)

lemma unsigned_decimal_nonneg: "unsigned_decimal s = Some q \<Longrightarrow> 0 \<le> q"
proof -
  have d: "(0::rat) \<le> of_int (digits_value (takeWhile is_digit t))" for t
    using digits_value_nonneg [of "takeWhile is_digit t"] by (auto dest: set_takeWhileD)
  have f: "(0::rat) \<le> of_int (digits_value (takeWhile is_digit t))
             + of_int (digits_value (takeWhile is_digit t')) / 10 ^ n" for t t' n
    using d [of t] d [of t'] by (intro add_nonneg_nonneg divide_nonneg_nonneg) simp_all
  have p: "(0::rat) \<le> pow10 e" for e
    using pow10_pos [of e] by simp
  assume "unsigned_decimal s = Some q"
  then consider t where "q = of_int (digits_value (takeWhile is_digit t))"
    | t e where "q = of_int (digits_value (takeWhile is_digit t)) * pow10 e"
    | t t' n e where "q = (of_int (digits_value (takeWhile is_digit t))
             + of_int (digits_value (takeWhile is_digit t')) / 10 ^ n) * pow10 e"
    by (auto simp: unsigned_decimal_def Let_def split: list.splits if_splits)
  then show ?thesis
  proof cases
    case 1
    then show ?thesis using d by simp
  next
    case 2
    then show ?thesis using d p by (simp only: mult_nonneg_nonneg)
  next
    case 3
    then show ?thesis using f p by (simp only: mult_nonneg_nonneg)
  qed
qed

lemma unsigned_literal_nonneg: "nonneg (unsigned_literal s)"
proof (cases "unsigned_decimal s")
  case None
  then show ?thesis by (simp add: unsigned_literal_def nonneg_def)
next
  case (Some q)
  then show ?thesis
    using round_to_double_nonneg [OF unsigned_decimal_nonneg [OF Some]]
    by (simp add: unsigned_literal_def nonneg_def)
qed

lemma parseFloat_nonneg:
  assumes "\<forall>c\<in>set s. in_class c"
  shows "nonneg (parseFloat s)"
proof (cases "trimStart s")
  case Nil
  then show ?thesis by (simp add: parseFloat_def nonneg_def)
next
  case (Cons c r)
  then have "c \<in> set s"
    using set_dropWhileD [of c is_ws s] by (simp add: trimStart_def)
  then have "c \<noteq> 45"
    using assms minus_not_in_class by auto
  then show ?thesis
    using Cons unsigned_literal_nonneg by (simp add: parseFloat_def)
qed

section \<open>Facts: the balance pattern\<close>

text \<open>
  The matcher gives the same groups, up to the letter case of group 2, for a text and for
  the text in lower case.
\<close>

lemma match_literal_lower:
  "match_literal p (map lower s) = map_option (map lower) (match_literal p s)"
  by (induction p s rule: match_literal.induct) (simp_all add: option.map_comp comp_def)

lemma match_unit_lower: "match_unit (map lower s) = map_option (map lower) (match_unit s)"
  by (simp add: match_unit_def match_literal_lower split: option.splits)

lemma match_space_lower: "match_space (map lower s) = map_option (map lower) (match_space s)"
proof (induction s)
  case Nil
  show ?case using match_unit_lower [of "[]"] by simp
next
  case (Cons c cs)
  show ?case
    using Cons match_unit_lower [of "c # cs"] by (simp split: option.splits)
qed

lemma match_unit_Nil [simp]: "match_unit [] = None"
  by (simp add: match_unit_def js_def)

lemma match_number_lower:
  "match_number acc (map lower s) = map_option (apsnd (map lower)) (match_number acc s)"
proof (induction s arbitrary: acc)
  case Nil
  show ?case by simp
next
  case (Cons c cs)
  have ms: "match_space (lower c # map lower cs) = map_option (map lower) (match_space (c # cs))"
    using match_space_lower [of "c # cs"] by (simp del: match_space.simps)
  show ?case
  proof (cases "in_class c")
    case True
    then have "lower c = c"
      by (rule in_class_lower_id)
    then show ?thesis
      using True Cons [of "acc @ [c]"] ms
      by (simp del: match_space.simps add: option.map_comp comp_def split: option.splits)
  next
    case False
    then show ?thesis
      using ms by (simp del: match_space.simps add: option.map_comp comp_def)
  qed
qed

lemma match_here_lower:
  "match_here (map lower s) = map_option (apsnd (map lower)) (match_here s)"
  using match_number_lower [of "[hd s]" "tl s"]
  by (cases s) (auto simp: match_here_def in_class_lower_id)

lemma regex_match_lower:
  "regex_match (map lower s) = map_option (apsnd (map lower)) (regex_match s)"
proof (induction s)
  case Nil
  show ?case by simp
next
  case (Cons c cs)
  show ?case
    using Cons match_here_lower [of "c # cs"] by (simp split: option.splits)
qed

lemma dropWhile_ws_lower: "dropWhile is_ws (map lower s) = map lower (dropWhile is_ws s)"
  by (induction s) simp_all

lemma trim_lower: "trim (map lower s) = map lower (trim s)"
  by (simp add: trim_def trimStart_def trimEnd_def dropWhile_ws_lower rev_map)

lemma regex_match_same_lower:
  assumes "map lower t = map lower t'"
  shows "map_option (apsnd (map lower)) (regex_match (trim t))
           = map_option (apsnd (map lower)) (regex_match (trim t'))"
proof -
  have "map_option (apsnd (map lower)) (regex_match (trim t)) = regex_match (trim (map lower t))"
    by (simp add: regex_match_lower trim_lower)
  also have "\<dots> = regex_match (trim (map lower t'))"
    using assms by simp
  also have "\<dots> = map_option (apsnd (map lower)) (regex_match (trim t'))"
    by (simp add: regex_match_lower trim_lower)
  finally show ?thesis .
qed

text \<open>
  What the pattern matches: group 1 is a non-empty run of digits, white space and points,
  group 2 is one of the four unit tokens in some letter case.
\<close>

lemma match_literal_letters:
  "match_literal p s = Some u \<Longrightarrow> \<forall>x\<in>set p. is_letter x \<Longrightarrow> toLowerCase u = toLowerCase p"
proof (induction p s arbitrary: u rule: match_literal.induct)
  case (1 s)
  then show ?case by (simp add: toLowerCase_def)
next
  case (2 p ps)
  then show ?case by simp
next
  case (3 p ps c cs)
  from "3.prems" obtain u' where u: "canonicalize c = canonicalize p"
      "match_literal ps cs = Some u'" "u = c # u'"
    by (auto split: if_splits)
  have "lower c = lower p"
    using "3.prems"(2) u(1) by (intro canonicalize_letter) simp_all
  moreover have "toLowerCase u' = toLowerCase ps"
    using "3.IH" [OF u(1,2)] "3.prems"(2) by simp
  ultimately show ?case
    using u(3) by (simp add: toLowerCase_def)
qed

lemma unit_literals:
  "\<forall>x\<in>set (js ''Kilogram''). is_letter x" "\<forall>x\<in>set (js ''Tonne''). is_letter x"
  "\<forall>x\<in>set (js ''kg''). is_letter x" "\<forall>x\<in>set (js ''TNE''). is_letter x"
  "toLowerCase (js ''Kilogram'') = js ''kilogram''" "toLowerCase (js ''Tonne'') = js ''tonne''"
  "toLowerCase (js ''kg'') = js ''kg''" "toLowerCase (js ''TNE'') = js ''tne''"
  by (simp_all add: js_def is_letter_def toLowerCase_def lower_def)

lemma match_unit_letters:
  assumes "match_unit s = Some u"
  shows "toLowerCase u \<in> {js ''kilogram'', js ''tonne'', js ''kg'', js ''tne''}"
proof -
  from assms consider "match_literal (js ''Kilogram'') s = Some u"
    | "match_literal (js ''Tonne'') s = Some u" | "match_literal (js ''kg'') s = Some u"
    | "match_literal (js ''TNE'') s = Some u"
    by (auto simp: match_unit_def split: option.splits)
  then show ?thesis
  proof cases
    case 1
    from match_literal_letters [OF this unit_literals(1)] show ?thesis
      by (simp add: unit_literals)
  next
    case 2
    from match_literal_letters [OF this unit_literals(2)] show ?thesis
      by (simp add: unit_literals)
  next
    case 3
    from match_literal_letters [OF this unit_literals(3)] show ?thesis
      by (simp add: unit_literals)
  next
    case 4
    from match_literal_letters [OF this unit_literals(4)] show ?thesis
      by (simp add: unit_literals)
  qed
qed

lemma match_space_unit: "match_space s = Some u \<Longrightarrow> \<exists>s'. match_unit s' = Some u"
  by (induction s) (auto split: option.splits if_splits)

lemma match_number_groups:
  "match_number acc s = Some (m1, m2) \<Longrightarrow>
     (\<exists>k. m1 = acc @ take k s \<and> (\<forall>c\<in>set (take k s). in_class c)) \<and> (\<exists>s'. match_unit s' = Some m2)"
proof (induction s arbitrary: acc)
  case Nil
  then show ?case using match_space_unit by auto
next
  case (Cons c cs)
  show ?case
  proof (cases "in_class c \<and> match_number (acc @ [c]) cs \<noteq> None")
    case True
    then have "match_number (acc @ [c]) cs = Some (m1, m2)"
      using Cons.prems by auto
    from Cons.IH [OF this] obtain k where k: "m1 = (acc @ [c]) @ take k cs" "\<forall>x\<in>set (take k cs). in_class x"
      and u: "\<exists>s'. match_unit s' = Some m2"
      by blast
    have "m1 = acc @ take (Suc k) (c # cs) \<and> (\<forall>x\<in>set (take (Suc k) (c # cs)). in_class x)"
      using k True by simp
    then show ?thesis using u by blast
  next
    case False
    then have "map_option (Pair acc) (match_space (c # cs)) = Some (m1, m2)"
      using Cons.prems by (auto simp del: match_space.simps split: option.splits if_splits)
    then have "m1 = acc" "match_space (c # cs) = Some m2"
      by (auto simp del: match_space.simps)
    then have "m1 = acc @ take 0 (c # cs) \<and> (\<forall>x\<in>set (take 0 (c # cs)). in_class x)"
      and "\<exists>s'. match_unit s' = Some m2"
      using match_space_unit [of "c # cs" m2] by simp_all
    then show ?thesis by blast
  qed
qed

lemma regex_match_groups:
  "regex_match s = Some (m1, m2) \<Longrightarrow>
     m1 \<noteq> [] \<and> (\<forall>c\<in>set m1. in_class c)
     \<and> toLowerCase m2 \<in> {js ''kilogram'', js ''tonne'', js ''kg'', js ''tne''}"
proof (induction s)
  case Nil
  then show ?case by simp
next
  case (Cons c cs)
  show ?case
  proof (cases "match_here (c # cs)")
    case None
    then show ?thesis using Cons by simp
  next
    case (Some a)
    then have h: "in_class c" "match_number [c] cs = Some (m1, m2)"
      using Cons.prems by (auto simp: match_here_def split: if_splits)
    from match_number_groups [OF h(2)] obtain k s' where
      "m1 = [c] @ take k cs" "\<forall>x\<in>set (take k cs). in_class x" "match_unit s' = Some m2"
      by blast
    then show ?thesis
      using h(1) match_unit_letters [of s' m2] by auto
  qed
qed

section \<open>Facts: the scan\<close>

lemma scan_rows_skip:
  "\<forall>c\<in>set pre. row_body now ordNum c = None \<Longrightarrow>
   scan_rows now ordNum (pre @ rows) = scan_rows now ordNum rows"
  by (induction pre) simp_all

lemma scan_rows_Some:
  "scan_rows now ordNum rows = Some r \<Longrightarrow> \<exists>cells\<in>set rows. row_body now ordNum cells = Some r"
  by (induction rows) (auto split: option.splits)

lemma scan_rows_None:
  "scan_rows now ordNum rows = None \<longleftrightarrow> (\<forall>cells\<in>set rows. row_body now ordNum cells = None)"
  by (induction rows) (auto split: option.splits)

lemma scan_rows_first:
  assumes "\<forall>c\<in>set pre. row_body now ordNum c = None"
    and "row_body now ordNum cells \<noteq> None"
  shows "scan_rows now ordNum (pre @ cells # post) = row_body now ordNum cells"
  using assms by (auto simp: scan_rows_skip)

lemma scan_rows_drop:
  "row_body now ordNum cells = None \<Longrightarrow>
   scan_rows now ordNum (pre @ cells # post) = scan_rows now ordNum (pre @ post)"
  by (induction pre) (simp_all split: option.splits)

lemma scan_rows_same_row:
  "row_body now ordNum a = row_body now ordNum b \<Longrightarrow>
   scan_rows now ordNum (pre @ a # post) = scan_rows now ordNum (pre @ b # post)"
  by (induction pre) (simp_all split: option.splits)

lemma row_body_None:
  "row_body now ordNum cells = None \<longleftrightarrow>
     \<not> (5 \<le> length cells \<and> trim (cells ! 0) = ordNum \<and> regex_match (trim (cells ! 4)) \<noteq> None)"
  by (auto simp: row_body_def Let_def split: option.splits)

lemma row_body_balance:
  "row_body now ordNum cells = Some r \<Longrightarrow>
     balance r = Number_toString (balanceKg r) @ js '' Kilogram'' \<and> unit r = js ''Kilogram''"
  by (auto simp: row_body_def Let_def split: option.splits if_splits)

lemma row_body_match:
  assumes "5 \<le> length cells" and "trim (cells ! 0) = ordNum"
    and "regex_match (trim (cells ! 4)) = Some (m1, m2)"
  shows "map_option balanceKg (row_body now ordNum cells)
           = Some (Math_round
               (if take 1 (toLowerCase m2) = js ''t'' \<or> toLowerCase m2 = js ''tne''
                then Math_round (num_mul (parseFloat (filter (\<lambda>c. \<not> is_ws c) m1)) (Finite 1000))
                else parseFloat (filter (\<lambda>c. \<not> is_ws c) m1)))"
  using assms by (simp add: row_body_def Let_def)

lemma row_body_same_lower:
  assumes "toLowerCase t' = toLowerCase (cells ! 4)"
  shows "row_body now ordNum (cells[4 := t']) = row_body now ordNum cells"
proof (cases "length cells < 5")
  case True
  then have "cells[4 := t'] = cells"
    by (intro list_update_beyond) simp
  then show ?thesis by simp
next
  case False
  have eq: "map_option (apsnd (map lower)) (regex_match (trim t'))
           = map_option (apsnd (map lower)) (regex_match (trim (cells ! 4)))"
    using assms by (intro regex_match_same_lower) (simp add: toLowerCase_def)
  show ?thesis
  proof (cases "regex_match (trim (cells ! 4))")
    case None
    then have "regex_match (trim t') = None"
      using eq by simp
    then show ?thesis
      using None False by (simp add: row_body_def)
  next
    case (Some a)
    obtain m1 m2 where a: "a = (m1, m2)"
      by (cases a)
    from Some a eq obtain m2' where m: "regex_match (trim t') = Some (m1, m2')" "map lower m2' = map lower m2"
      by (cases "regex_match (trim t')") auto
    show ?thesis
      using False Some a m by (simp add: row_body_def toLowerCase_def Let_def)
  qed
qed

lemma split_on_no_sep: "sep \<notin> set p \<Longrightarrow> split_on sep p = [p]"
  by (induction p) auto

lemma split_on_append:
  "sep \<notin> set p \<Longrightarrow> split_on sep (p @ sep # rest) = p # split_on sep rest"
  by (induction p) auto

lemma reverse_three_parts:
  assumes "45 \<notin> set d" and "45 \<notin> set m" and "45 \<notin> set y"
  shows "join_with 45 (rev (split_on 45 (d @ 45 # m @ 45 # y))) = y @ 45 # m @ 45 # d"
  using assms by (simp add: split_on_append split_on_no_sep)

lemma row_body_url:
  "row_body now ordNum cells = Some r \<Longrightarrow>
     moreInfoUrl r
       = js ''https://ec.europa.eu/taxation_customs/dds2/taric/quota_tariff_details.jsp?Lang=en&StartDate=''
         @ join_with 45 (rev (split_on 45 (startDate r))) @ js ''&Code='' @ ordNum
     \<and> orderNumber r = ordNum \<and> startDate r = trim (cells ! 2)"
  by (auto simp: row_body_def Let_def split: option.splits if_splits)

text \<open>
  The numeric token has no sign, so the Number parsed from it is never below zero; apart
  from NaN (a token without a valid literal at its start) and the infinity (a token from
  about \<open>1.8 * 10 ^ 308\<close> on), \<open>balanceKg\<close> is a whole number that is not negative.
\<close>

lemma row_body_shape:
  assumes "row_body now ordNum cells = Some r"
  shows "balanceKg r = NaN \<or> balanceKg r = PosInf \<or> whole_kg (balanceKg r)"
proof -
  from assms obtain m1 m2 where m: "regex_match (trim (cells ! 4)) = Some (m1, m2)"
    and len: "5 \<le> length cells" and key: "trim (cells ! 0) = ordNum"
    by (auto simp: row_body_def Let_def split: option.splits if_splits)
  let ?raw = "parseFloat (filter (\<lambda>c. \<not> is_ws c) m1)"
  have "\<forall>c\<in>set (filter (\<lambda>c. \<not> is_ws c) m1). in_class c"
    using regex_match_groups [OF m] by simp
  then have raw: "nonneg ?raw"
    by (rule parseFloat_nonneg)
  have "map_option balanceKg (row_body now ordNum cells) = Some (balanceKg r)"
    using assms by simp
  then have "balanceKg r = Math_round ?raw
      \<or> balanceKg r = Math_round (num_mul ?raw (Finite 1000))"
    using row_body_match [OF len key m, of now] by (simp add: Math_round_idem split: if_splits)
  then show ?thesis
    using Math_round_nonneg [OF raw] Math_round_nonneg [OF num_mul_nonneg [OF raw]] by auto
qed

lemma balanceKg_shape:
  "scan_rows now ordNum rows = Some r \<Longrightarrow>
     balanceKg r = NaN \<or> balanceKg r = PosInf \<or> whole_kg (balanceKg r)"
  using scan_rows_Some row_body_shape by blast

section \<open>Facts: the handler\<close>

lemma handler_all_return:
  assumes "orderNumber' \<noteq> []" and "year' \<noteq> []" and "origin' \<noteq> []"
    and "launch e = Returns ()" and "newPage e = Returns ()" and "setUserAgent e = Returns ()"
    and "goto e (quota_url orderNumber' year' origin') = Returns ()"
    and "evaluate e = Returns ()" and "close e 0 = Returns ()"
  shows "handler e (Some orderNumber') (Some year') (Some origin')
     = (case scan_rows (page_now e) orderNumber' (document e) of
          None \<Rightarrow>
            ([Launch, NewPage, SetUserAgent, Goto (quota_url orderNumber' year' origin'),
              Evaluate orderNumber', Close, Json 404 (Quota_not_found orderNumber' origin' year')]
             @ (case json e 404 of Returns _ \<Rightarrow> []
                | Throws m \<Rightarrow> (case close e 1 of Throws _ \<Rightarrow> [Close]
                    | Returns _ \<Rightarrow> [Close, Json 500 (Scraping_failed m orderNumber' origin' year')])),
             (case json e 404 of Returns _ \<Rightarrow> Returns ()
                | Throws m \<Rightarrow> (case close e 1 of Throws m' \<Rightarrow> Throws m' | Returns _ \<Rightarrow> json e 500)))
        | Some r \<Rightarrow>
            ([Launch, NewPage, SetUserAgent, Goto (quota_url orderNumber' year' origin'),
              Evaluate orderNumber', Close, Json 200 (Success_data r (server_now e))]
             @ (case json e 200 of Returns _ \<Rightarrow> []
                | Throws m \<Rightarrow> (case close e 1 of Throws _ \<Rightarrow> [Close]
                    | Returns _ \<Rightarrow> [Close, Json 500 (Scraping_failed m orderNumber' origin' year')])),
             (case json e 200 of Returns _ \<Rightarrow> Returns ()
                | Throws m \<Rightarrow> (case close e 1 of Throws m' \<Rightarrow> Throws m' | Returns _ \<Rightarrow> json e 500))))"
  using assms
  by (simp add: handler_def try_block_def falsy_def Let_def split: option.splits outcome.splits)

lemma all_return_simps:
  "launch (all_return rows) = Returns ()" "newPage (all_return rows) = Returns ()"
  "setUserAgent (all_return rows) = Returns ()" "goto (all_return rows) u = Returns ()"
  "evaluate (all_return rows) = Returns ()" "close (all_return rows) i = Returns ()"
  "json (all_return rows) st = Returns ()" "document (all_return rows) = rows"
  "page_now (all_return rows) = js ''2025-06-01T10:00:00.000Z''"
  "server_now (all_return rows) = js ''2025-06-01T10:00:01.000Z''"
  by (simp_all add: all_return_def)

lemma close_called_once:
  assumes "orderNumber' \<noteq> []" and "year' \<noteq> []" and "origin' \<noteq> []"
    and "launch e = Returns ()" and "close e 0 = Returns ()"
    and "json e 200 = Returns ()" and "json e 404 = Returns ()"
  shows "count_list (fst (handler e (Some orderNumber') (Some year') (Some origin'))) Close = 1"
  using assms
  by (simp add: handler_def try_block_def falsy_def Let_def split: option.splits outcome.splits)

lemma no_session_no_close:
  assumes "orderNumber' \<noteq> []" and "year' \<noteq> []" and "origin' \<noteq> []"
    and "launch e = Throws m"
  shows "count_list (fst (handler e (Some orderNumber') (Some year') (Some origin'))) Close = 0"
  using assms
  by (simp add: handler_def try_block_def falsy_def Let_def split: option.splits outcome.splits)

section \<open>Facts: the example inputs\<close>

lemma js_nonempty: "js ''098701'' \<noteq> []" "js ''2025'' \<noteq> []" "js ''BR'' \<noteq> []"
  by (simp_all add: js_def)

lemma header_skipped: "\<forall>c\<in>set [[js ''Order'']]. row_body now ordNum c = None"
  by (simp add: row_body_def)

lemma brazil_row_length: "5 \<le> length (brazil_row b)"
  by (simp add: brazil_row_def)

lemma brazil_row_key: "trim (brazil_row b ! 0) = js ''098701''"
  by (simp add: brazil_row_def trim_def trimStart_def trimEnd_def js_def is_ws_def)

lemma scan_500_tonne:
  "scan_rows (js ''2025-06-01T10:00:00.000Z'') (js ''098701'') [[js ''Order''], brazil_row (js ''500 Tonne'')]
     = Some (brazil_record (js ''500000 Kilogram'') (Finite 500000))"
  by code_simp

lemma scan_500_tonne_alone:
  "scan_rows (js ''2025-06-01T10:00:00.000Z'') (js ''098701'') [brazil_row (js ''500 Tonne'')]
     = Some (brazil_record (js ''500000 Kilogram'') (Finite 500000))"
  using scan_500_tonne by (simp add: row_body_def)

section \<open>Facts: what holds of every request\<close>

lemma num_mul_Finite: "num_mul (Finite v) (Finite 1000) = round_to_double (v * 1000)"
  by (simp add: num_mul_def)

lemma num_mul_other:
  "num_mul NaN (Finite 1000) = NaN" "num_mul PosInf (Finite 1000) = PosInf"
  "num_mul NegInf (Finite 1000) = NegInf"
  by (simp_all add: num_mul_def num_sign_def)

lemma round_thousandfold:
  "Math_round (num_mul x (Finite 1000))
     = (case x of
          Finite v \<Rightarrow>
            (case round_to_double (v * 1000) of
               Finite q \<Rightarrow> Finite (of_int \<lfloor>q + 1 / 2\<rfloor>)
             | NaN \<Rightarrow> NaN | PosInf \<Rightarrow> PosInf | NegInf \<Rightarrow> NegInf)
        | NaN \<Rightarrow> NaN | PosInf \<Rightarrow> PosInf | NegInf \<Rightarrow> NegInf)"
proof (cases x)
  case (Finite v)
  then show ?thesis
    by (cases "round_to_double (v * 1000)") (simp_all add: num_mul_Finite Math_round_def)
qed (simp_all add: num_mul_other Math_round_def)

lemma print_2_53: "Number_toString (Finite 9007199254740992) = js ''9007199254740992''"
  by code_simp

lemma dec_2_53: "dec 9007199254740992 = js ''9007199254740992''"
  by (simp add: dec.simps js_def)

lemma Number_toString_whole:
  assumes "0 \<le> x" and "x \<le> 2 ^ 53"
  shows "Number_toString (Finite (of_int x)) = dec x"
proof (cases "x = 2 ^ 53")
  case True
  then show ?thesis using print_2_53 dec_2_53 by simp
next
  case False
  then show ?thesis using assms by (intro Number_toString_int) simp_all
qed

lemma quota_url_digits:
  assumes "ds \<noteq> []" and "\<forall>c\<in>set ds. is_digit c"
    and "rest = [] \<or> \<not> is_digit (hd rest)"
    and "take 2 (ds @ rest) \<noteq> js ''0x'' \<and> take 2 (ds @ rest) \<noteq> js ''0X''"
    and "digits_value ds < 2 ^ 53"
  shows "quota_url orderNumber' (ds @ rest) origin'
     = js ''https://ec.europa.eu/taxation_customs/dds2/taric/quota_consultation.jsp?Lang=en&Code=''
       @ orderNumber' @ js ''&Origin='' @ origin' @ js ''&Expand=true&Year=''
       @ dec (digits_value ds) @ js ''&Year='' @ dec (digits_value ds + 1)"
proof -
  have v: "0 \<le> digits_value ds"
    using assms(2) by (rule digits_value_nonneg)
  have cur: "parseInt (ds @ rest) = Finite (of_int (digits_value ds))"
    using parseInt_digits [OF assms(1-4)] round_to_double_exact [of "digits_value ds"] v assms(5)
    by simp
  have "num_add (Finite (of_int (digits_value ds))) (Finite 1)
          = round_to_double (of_int (digits_value ds + 1))"
    by (simp add: num_add_def)
  also have "\<dots> = Finite (of_int (digits_value ds + 1))"
    using v assms(5) by (intro round_to_double_exact) simp_all
  finally have next_year: "num_add (parseInt (ds @ rest)) (Finite 1)
      = Finite (of_int (digits_value ds + 1))"
    by (simp only: cur)
  have p1: "Number_toString (Finite (of_int (digits_value ds))) = dec (digits_value ds)"
    using v assms(5) by (intro Number_toString_whole) simp_all
  have p2: "Number_toString (Finite (of_int (digits_value ds + 1))) = dec (digits_value ds + 1)"
    using v assms(5) by (intro Number_toString_whole) simp_all
  show ?thesis
    unfolding quota_url_def Let_def next_year p2 unfolding cur p1 ..
qed

lemma handler_not_rejected:
  assumes "orderNumber' \<noteq> []" and "year' \<noteq> []" and "origin' \<noteq> []"
  shows "Json 400 b \<notin> set (fst (handler e (Some orderNumber') (Some year') (Some origin')))"
  using assms
  by (simp add: handler_def try_block_def falsy_def Let_def split: option.splits outcome.splits)

lemma handler_navigates:
  assumes "orderNumber' \<noteq> []" and "year' \<noteq> []" and "origin' \<noteq> []"
    and "launch e = Returns ()" and "newPage e = Returns ()" and "setUserAgent e = Returns ()"
  shows "take 4 (fst (handler e (Some orderNumber') (Some year') (Some origin')))
           = [Launch, NewPage, SetUserAgent, Goto (quota_url orderNumber' year' origin')]"
  using assms
  by (simp add: handler_def try_block_def falsy_def Let_def split: option.splits outcome.splits)

lemma scan_no_digit:
  "scan_rows (js ''2025-06-01T10:00:00.000Z'') (js ''098701'')
       [brazil_row (js ''n/a kg''), brazil_row (js ''500 Tonne'')]
     = Some (brazil_record (js ''NaN Kilogram'') NaN)"
  "regex_match (trim (brazil_row (js ''n/a kg'') ! 4)) = Some (js '' '', js ''kg'')"
  "filter is_digit (js '' '') = []"
  by code_simp+

lemma scan_no_digit_alone:
  "scan_rows (js ''2025-06-01T10:00:00.000Z'') (js ''098701'') [brazil_row (js ''n/a kg'')]
     = Some (brazil_record (js ''NaN Kilogram'') NaN)"
  by code_simp

text \<open>
  A row the pattern does not match is skipped, the scan is null exactly when no row has
  five cells, the order number and a balance cell the pattern matches, and a null scan is
  answered with 404.
\<close>

lemma unmatched_row_skipped:
  "(5 \<le> length cells \<and> trim (cells ! 0) = ordNum \<and> regex_match (trim (cells ! 4)) = None
      \<longrightarrow> scan_rows now ordNum (pre @ cells # post) = scan_rows now ordNum (pre @ post))
   \<and> (scan_rows now ordNum rows = None
        \<longleftrightarrow> (\<forall>c\<in>set rows. \<not> (5 \<le> length c \<and> trim (c ! 0) = ordNum
                                 \<and> regex_match (trim (c ! 4)) \<noteq> None)))
   \<and> (orderNumber' \<noteq> [] \<and> year' \<noteq> [] \<and> origin' \<noteq> []
       \<and> launch e = Returns () \<and> newPage e = Returns () \<and> setUserAgent e = Returns ()
       \<and> goto e (quota_url orderNumber' year' origin') = Returns ()
       \<and> evaluate e = Returns () \<and> close e 0 = Returns () \<and> json e 404 = Returns ()
       \<and> scan_rows (page_now e) orderNumber' (document e) = None
      \<longrightarrow> handler e (Some orderNumber') (Some year') (Some origin')
            = ([Launch, NewPage, SetUserAgent, Goto (quota_url orderNumber' year' origin'),
                Evaluate orderNumber', Close,
                Json 404 (Quota_not_found orderNumber' origin' year')], Returns ()))"
proof (intro conjI impI)
  assume "5 \<le> length cells \<and> trim (cells ! 0) = ordNum \<and> regex_match (trim (cells ! 4)) = None"
  then have "row_body now ordNum cells = None"
    by (simp add: row_body_None)
  then show "scan_rows now ordNum (pre @ cells # post) = scan_rows now ordNum (pre @ post)"
    by (rule scan_rows_drop)
next
  show "scan_rows now ordNum rows = None
        \<longleftrightarrow> (\<forall>c\<in>set rows. \<not> (5 \<le> length c \<and> trim (c ! 0) = ordNum
                                 \<and> regex_match (trim (c ! 4)) \<noteq> None))"
    by (simp add: scan_rows_None row_body_None)
next
  assume a: "orderNumber' \<noteq> [] \<and> year' \<noteq> [] \<and> origin' \<noteq> []
       \<and> launch e = Returns () \<and> newPage e = Returns () \<and> setUserAgent e = Returns ()
       \<and> goto e (quota_url orderNumber' year' origin') = Returns ()
       \<and> evaluate e = Returns () \<and> close e 0 = Returns () \<and> json e 404 = Returns ()
       \<and> scan_rows (page_now e) orderNumber' (document e) = None"
  then show "handler e (Some orderNumber') (Some year') (Some origin')
            = ([Launch, NewPage, SetUserAgent, Goto (quota_url orderNumber' year' origin'),
                Evaluate orderNumber', Close,
                Json 404 (Quota_not_found orderNumber' origin' year')], Returns ())"
    by (simp add: handler_all_return)
qed

lemma ex_exhausted:
  "regex_match (trim (brazil_row (js ''exhausted'') ! 4)) = None"
  by code_simp

lemma unmatched_row_skipped_example:
  "5 \<le> length (brazil_row (js ''exhausted''))
   \<and> trim (brazil_row (js ''exhausted'') ! 0) = js ''098701''
   \<and> regex_match (trim (brazil_row (js ''exhausted'') ! 4)) = None
   \<and> scan_rows (js ''2025-06-01T10:00:00.000Z'') (js ''098701'')
        ([[js ''Order'']] @ brazil_row (js ''exhausted'') # [brazil_row (js ''500 Tonne'')])
      = Some (brazil_record (js ''500000 Kilogram'') (Finite 500000))
   \<and> scan_rows (js ''2025-06-01T10:00:00.000Z'') (js ''098701'')
        [[js ''Order''], brazil_row (js ''exhausted'')] = None
   \<and> handler (all_return [[js ''Order''], brazil_row (js ''exhausted'')])
        (Some (js ''098701'')) (Some (js ''2025'')) (Some (js ''BR''))
      = ([Launch, NewPage, SetUserAgent, Goto (quota_url (js ''098701'') (js ''2025'') (js ''BR'')),
          Evaluate (js ''098701''), Close,
          Json 404 (Quota_not_found (js ''098701'') (js ''BR'') (js ''2025''))], Returns ())"
proof -
  let ?now = "js ''2025-06-01T10:00:00.000Z''"
  let ?rows = "[[js ''Order''], brazil_row (js ''exhausted'')]"
  have nonempty: "js ''098701'' \<noteq> [] \<and> js ''2025'' \<noteq> [] \<and> js ''BR'' \<noteq> []"
    by (simp add: js_def)
  have skip: "scan_rows ?now (js ''098701'')
        ([[js ''Order'']] @ brazil_row (js ''exhausted'') # [brazil_row (js ''500 Tonne'')])
      = scan_rows ?now (js ''098701'') ([[js ''Order'']] @ [brazil_row (js ''500 Tonne'')])"
    by (rule unmatched_row_skipped
      [of "brazil_row (js ''exhausted'')" "js ''098701''" ?now "[[js ''Order'']]"
          "[brazil_row (js ''500 Tonne'')]", THEN conjunct1, THEN mp])
      (intro conjI brazil_row_length brazil_row_key ex_exhausted)
  have "\<forall>c\<in>set ?rows. \<not> (5 \<le> length c \<and> trim (c ! 0) = js ''098701''
                                 \<and> regex_match (trim (c ! 4)) \<noteq> None)"
    using ex_exhausted by simp
  then have none: "scan_rows ?now (js ''098701'') ?rows = None"
    by (rule unmatched_row_skipped
      [of "[]" "js ''098701''" ?now "[]" "[]" ?rows, THEN conjunct2, THEN conjunct1, THEN iffD2])
  have notfound: "handler (all_return ?rows) (Some (js ''098701'')) (Some (js ''2025'')) (Some (js ''BR''))
      = ([Launch, NewPage, SetUserAgent, Goto (quota_url (js ''098701'') (js ''2025'') (js ''BR'')),
          Evaluate (js ''098701''), Close,
          Json 404 (Quota_not_found (js ''098701'') (js ''BR'') (js ''2025''))], Returns ())"
    by (rule unmatched_row_skipped
      [of "[]" "[]" "[]" "[]" "[]" "[]" "js ''098701''" "js ''2025''" "js ''BR''" "all_return ?rows",
       THEN conjunct2, THEN conjunct2, THEN mp])
      (use nonempty none in \<open>simp only: all_return_simps simp_thms\<close>)
  show ?thesis
    using skip none notfound scan_500_tonne brazil_row_length brazil_row_key ex_exhausted
    by simp
qed

text \<open>
  The field \<open>balance\<close> is \<open>balanceKg\<close> as JavaScript prints it followed by
  \<^verbatim>\<open> Kilogram\<close>: the decimal digits of a whole number below \<open>2 ^ 53\<close>.
\<close>

lemma balance_printed:
  assumes "scan_rows now ordNum rows = Some r"
  shows "balance r = Number_toString (balanceKg r) @ js '' Kilogram''
     \<and> unit r = js ''Kilogram''
     \<and> (\<forall>n. balanceKg r = Finite (of_int n) \<and> n < 2 ^ 53 \<longrightarrow> balance r = dec n @ js '' Kilogram'')"
proof -
  from assms obtain cells where "row_body now ordNum cells = Some r"
    using scan_rows_Some by blast
  then have b: "balance r = Number_toString (balanceKg r) @ js '' Kilogram''" "unit r = js ''Kilogram''"
    using row_body_balance by blast+
  have "balance r = dec n @ js '' Kilogram''" if "balanceKg r = Finite (of_int n) \<and> n < 2 ^ 53" for n
  proof -
    have "whole_kg (Finite (of_int n))"
      using balanceKg_shape [OF assms] that by simp
    then have "0 \<le> n"
      by (simp add: whole_kg_def)
    then show ?thesis
      using that b(1) Number_toString_int [of n] by simp
  qed
  then show ?thesis
    using b by blast
qed

lemma dec_500000: "dec 500000 = js ''500000''"
  by (simp add: dec.simps js_def)

lemma balance_printed_example:
  "scan_rows (js ''2025-06-01T10:00:00.000Z'') (js ''098701'') [[js ''Order''], brazil_row (js ''500 Tonne'')]
     = Some (brazil_record (js ''500000 Kilogram'') (Finite 500000))
   \<and> unit (brazil_record (js ''500000 Kilogram'') (Finite 500000)) = js ''Kilogram''
   \<and> balanceKg (brazil_record (js ''500000 Kilogram'') (Finite 500000)) = Finite (of_int 500000)
   \<and> balance (brazil_record (js ''500000 Kilogram'') (Finite 500000)) = dec 500000 @ js '' Kilogram''"
proof -
  have k: "balanceKg (brazil_record (js ''500000 Kilogram'') (Finite 500000)) = Finite (of_int 500000)
      \<and> (500000::int) < 2 ^ 53"
    by (simp add: brazil_record_def)
  show ?thesis
    using balance_printed [OF scan_500_tonne] scan_500_tonne k by blast
qed

section \<open>The properties claimed\<close>

subsection \<open>The balance in kilograms\<close>

text \<open>
  C1.  Let a row be the first one the scan does not skip, and let the unit token matched
  in its balance cell be \<^verbatim>\<open>Tonne\<close> or \<^verbatim>\<open>TNE\<close> in any letter case.  Then the scan
  succeeds, and \<open>balanceKg\<close> is got from the number \<open>v\<close> parsed from the numeric token (its
  white space removed) in two steps: the product \<open>v * 1000\<close> as a double, \<open>q\<close>, and then
  \<open>\<lfloor>q + 1 / 2\<rfloor>\<close>, the nearest integer with a half going up (NaN and the infinities stay as
  they are).  The example runs the cells \<^verbatim>\<open>12 Tonne\<close> (12000), \<^verbatim>\<open>0.5 TNE\<close> (500) and
  \<^verbatim>\<open>1.0005 tonne\<close>, where the product is 1000.5 and the result 1001.
\<close>

theorem tonne_balanceKg:
  assumes "\<forall>c\<in>set pre. row_body now ordNum c = None"
    and "5 \<le> length cells" and "trim (cells ! 0) = ordNum"
    and "regex_match (trim (cells ! 4)) = Some (m1, m2)"
    and "toLowerCase m2 = js ''tonne'' \<or> toLowerCase m2 = js ''tne''"
  shows "map_option balanceKg (scan_rows now ordNum (pre @ cells # post))
           = Some (case parseFloat (filter (\<lambda>c. \<not> is_ws c) m1) of
                     Finite v \<Rightarrow>
                       (case round_to_double (v * 1000) of
                          Finite q \<Rightarrow> Finite (of_int \<lfloor>q + 1 / 2\<rfloor>)
                        | NaN \<Rightarrow> NaN | PosInf \<Rightarrow> PosInf | NegInf \<Rightarrow> NegInf)
                   | NaN \<Rightarrow> NaN | PosInf \<Rightarrow> PosInf | NegInf \<Rightarrow> NegInf)"
proof -
  have tonne: "take 1 (toLowerCase m2) = js ''t'' \<or> toLowerCase m2 = js ''tne''"
    using assms(5) by (auto simp: js_def)
  have row: "map_option balanceKg (row_body now ordNum cells)
      = Some (Math_round (num_mul (parseFloat (filter (\<lambda>c. \<not> is_ws c) m1)) (Finite 1000)))"
    using row_body_match [OF assms(2-4), of now] tonne by (simp add: Math_round_idem)
  then have "row_body now ordNum cells \<noteq> None"
    by auto
  with assms(1) have "scan_rows now ordNum (pre @ cells # post) = row_body now ordNum cells"
    by (rule scan_rows_first)
  with row show ?thesis
    by (simp only: round_thousandfold)
qed

lemma ex_12_tonne:
  "regex_match (trim (brazil_row (js ''12 Tonne'') ! 4)) = Some (js ''12 '', js ''Tonne'')"
  "parseFloat (filter (\<lambda>c. \<not> is_ws c) (js ''12 '')) = Finite 12"
  "round_to_double (12 * 1000) = Finite 12000"
  "toLowerCase (js ''Tonne'') = js ''tonne''"
  by code_simp+

lemma ex_half_tne:
  "regex_match (trim (brazil_row (js ''0.5 TNE'') ! 4)) = Some (js ''0.5 '', js ''TNE'')"
  "parseFloat (filter (\<lambda>c. \<not> is_ws c) (js ''0.5 '')) = Finite (1 / 2)"
  "round_to_double (1 / 2 * 1000) = Finite 500"
  "toLowerCase (js ''TNE'') = js ''tne''"
  by code_simp+

lemma ex_fraction_tonne:
  "regex_match (trim (brazil_row (js ''1.0005 tonne'') ! 4)) = Some (js ''1.0005 '', js ''tonne'')"
  "parseFloat (filter (\<lambda>c. \<not> is_ws c) (js ''1.0005 '')) = Finite (4505851427184181 / 4503599627370496)"
  "round_to_double (4505851427184181 / 4503599627370496 * 1000) = Finite (2001 / 2)"
  "toLowerCase (js ''tonne'') = js ''tonne''"
  by code_simp+

theorem tonne_balanceKg_witness:
  "row_body (js ''T'') (js ''098701'') [js ''Order''] = None
   \<and> 5 \<le> length (brazil_row (js ''12 Tonne''))
   \<and> trim (brazil_row (js ''12 Tonne'') ! 0) = js ''098701''
   \<and> regex_match (trim (brazil_row (js ''12 Tonne'') ! 4)) = Some (js ''12 '', js ''Tonne'')
   \<and> toLowerCase (js ''Tonne'') = js ''tonne''
   \<and> map_option balanceKg
        (scan_rows (js ''T'') (js ''098701'') ([[js ''Order'']] @ brazil_row (js ''12 Tonne'') # []))
       = Some (Finite 12000)
   \<and> regex_match (trim (brazil_row (js ''0.5 TNE'') ! 4)) = Some (js ''0.5 '', js ''TNE'')
   \<and> toLowerCase (js ''TNE'') = js ''tne''
   \<and> map_option balanceKg
        (scan_rows (js ''T'') (js ''098701'') ([[js ''Order'']] @ brazil_row (js ''0.5 TNE'') # []))
       = Some (Finite 500)
   \<and> regex_match (trim (brazil_row (js ''1.0005 tonne'') ! 4)) = Some (js ''1.0005 '', js ''tonne'')
   \<and> round_to_double (4505851427184181 / 4503599627370496 * 1000) = Finite (2001 / 2)
   \<and> map_option balanceKg
        (scan_rows (js ''T'') (js ''098701'') ([[js ''Order'']] @ brazil_row (js ''1.0005 tonne'') # []))
       = Some (Finite 1001)"
proof -
  have fl: "\<lfloor>12000 + 1 / 2 :: rat\<rfloor> = 12000" "\<lfloor>500 + 1 / 2 :: rat\<rfloor> = 500"
    "\<lfloor>2001 / 2 + 1 / 2 :: rat\<rfloor> = 1001"
    by (simp_all add: floor_eq_iff)
  have a: "map_option balanceKg
        (scan_rows (js ''T'') (js ''098701'') ([[js ''Order'']] @ brazil_row (js ''12 Tonne'') # []))
       = Some (Finite 12000)"
    using tonne_balanceKg [OF header_skipped brazil_row_length brazil_row_key ex_12_tonne(1),
        of "js ''T''" "[]"] ex_12_tonne(2,3,4) fl
    by simp
  have b: "map_option balanceKg
        (scan_rows (js ''T'') (js ''098701'') ([[js ''Order'']] @ brazil_row (js ''0.5 TNE'') # []))
       = Some (Finite 500)"
    using tonne_balanceKg [OF header_skipped brazil_row_length brazil_row_key ex_half_tne(1),
        of "js ''T''" "[]"] ex_half_tne(2,3,4) fl
    by simp
  have c: "map_option balanceKg
        (scan_rows (js ''T'') (js ''098701'') ([[js ''Order'']] @ brazil_row (js ''1.0005 tonne'') # []))
       = Some (Finite 1001)"
    using tonne_balanceKg [OF header_skipped brazil_row_length brazil_row_key ex_fraction_tonne(1),
        of "js ''T''" "[]"] ex_fraction_tonne(2,3,4) fl
    by simp
  show ?thesis
    using a b c header_skipped brazil_row_length brazil_row_key
      ex_12_tonne ex_half_tne ex_fraction_tonne by simp
qed

text \<open>
  C2.  With the unit token \<^verbatim>\<open>Kilogram\<close> or \<^verbatim>\<open>kg\<close> in any letter case instead,
  \<open>balanceKg\<close> is the number parsed from the numeric token (its white space removed),
  rounded to the nearest integer, a half going up.  The example runs the cells
  \<^verbatim>\<open>1234.4 Kilogram\<close> (1234), \<^verbatim>\<open>1234.5 Kilogram\<close> (1235) and \<^verbatim>\<open>1 234.5 KG\<close> (1235).
\<close>

theorem kilogram_balanceKg:
  assumes "\<forall>c\<in>set pre. row_body now ordNum c = None"
    and "5 \<le> length cells" and "trim (cells ! 0) = ordNum"
    and "regex_match (trim (cells ! 4)) = Some (m1, m2)"
    and "toLowerCase m2 = js ''kilogram'' \<or> toLowerCase m2 = js ''kg''"
  shows "map_option balanceKg (scan_rows now ordNum (pre @ cells # post))
           = Some (case parseFloat (filter (\<lambda>c. \<not> is_ws c) m1) of
                     Finite q \<Rightarrow> Finite (of_int \<lfloor>q + 1 / 2\<rfloor>)
                   | NaN \<Rightarrow> NaN | PosInf \<Rightarrow> PosInf | NegInf \<Rightarrow> NegInf)"
proof -
  have kilo: "\<not> (take 1 (toLowerCase m2) = js ''t'' \<or> toLowerCase m2 = js ''tne'')"
    using assms(5) by (auto simp: js_def)
  have row: "map_option balanceKg (row_body now ordNum cells)
      = Some (Math_round (parseFloat (filter (\<lambda>c. \<not> is_ws c) m1)))"
    using row_body_match [OF assms(2-4), of now] kilo by simp
  then have "row_body now ordNum cells \<noteq> None"
    by auto
  with assms(1) have "scan_rows now ordNum (pre @ cells # post) = row_body now ordNum cells"
    by (rule scan_rows_first)
  with row show ?thesis by (simp add: Math_round_def split: number.splits)
qed

lemma ex_kilogram_down:
  "regex_match (trim (brazil_row (js ''1234.4 Kilogram'') ! 4)) = Some (js ''1234.4 '', js ''Kilogram'')"
  "parseFloat (filter (\<lambda>c. \<not> is_ws c) (js ''1234.4 '')) = Finite (2714474306653389 / 2199023255552)"
  "toLowerCase (js ''Kilogram'') = js ''kilogram''"
  by code_simp+

lemma ex_kilogram_up:
  "regex_match (trim (brazil_row (js ''1234.5 Kilogram'') ! 4)) = Some (js ''1234.5 '', js ''Kilogram'')"
  "parseFloat (filter (\<lambda>c. \<not> is_ws c) (js ''1234.5 '')) = Finite (2469 / 2)"
  by code_simp+

lemma ex_kg_spaced:
  "regex_match (trim (brazil_row (js ''1 234.5 KG'') ! 4)) = Some (js ''1 234.5 '', js ''KG'')"
  "parseFloat (filter (\<lambda>c. \<not> is_ws c) (js ''1 234.5 '')) = Finite (2469 / 2)"
  "toLowerCase (js ''KG'') = js ''kg''"
  by code_simp+

theorem kilogram_balanceKg_witness:
  "row_body (js ''T'') (js ''098701'') [js ''Order''] = None
   \<and> 5 \<le> length (brazil_row (js ''1234.4 Kilogram''))
   \<and> trim (brazil_row (js ''1234.4 Kilogram'') ! 0) = js ''098701''
   \<and> regex_match (trim (brazil_row (js ''1234.4 Kilogram'') ! 4)) = Some (js ''1234.4 '', js ''Kilogram'')
   \<and> toLowerCase (js ''Kilogram'') = js ''kilogram''
   \<and> map_option balanceKg
        (scan_rows (js ''T'') (js ''098701'') ([[js ''Order'']] @ brazil_row (js ''1234.4 Kilogram'') # []))
       = Some (Finite 1234)
   \<and> regex_match (trim (brazil_row (js ''1234.5 Kilogram'') ! 4)) = Some (js ''1234.5 '', js ''Kilogram'')
   \<and> parseFloat (filter (\<lambda>c. \<not> is_ws c) (js ''1234.5 '')) = Finite (2469 / 2)
   \<and> map_option balanceKg
        (scan_rows (js ''T'') (js ''098701'') ([[js ''Order'']] @ brazil_row (js ''1234.5 Kilogram'') # []))
       = Some (Finite 1235)
   \<and> regex_match (trim (brazil_row (js ''1 234.5 KG'') ! 4)) = Some (js ''1 234.5 '', js ''KG'')
   \<and> toLowerCase (js ''KG'') = js ''kg''
   \<and> map_option balanceKg
        (scan_rows (js ''T'') (js ''098701'') ([[js ''Order'']] @ brazil_row (js ''1 234.5 KG'') # []))
       = Some (Finite 1235)"
proof -
  have half_up: "\<lfloor>2469 / 2 + 1 / 2 :: rat\<rfloor> = 1235"
    by (simp add: floor_eq_iff)
  have half_down: "\<lfloor>2714474306653389 / 2199023255552 + 1 / 2 :: rat\<rfloor> = 1234"
    by (simp add: floor_eq_iff)
  have a: "map_option balanceKg
        (scan_rows (js ''T'') (js ''098701'') ([[js ''Order'']] @ brazil_row (js ''1234.4 Kilogram'') # []))
       = Some (Finite 1234)"
    using kilogram_balanceKg [OF header_skipped brazil_row_length brazil_row_key ex_kilogram_down(1),
        of "js ''T''" "[]"] ex_kilogram_down(2,3) half_down
    by simp
  have b: "map_option balanceKg
        (scan_rows (js ''T'') (js ''098701'') ([[js ''Order'']] @ brazil_row (js ''1234.5 Kilogram'') # []))
       = Some (Finite 1235)"
    using kilogram_balanceKg [OF header_skipped brazil_row_length brazil_row_key ex_kilogram_up(1),
        of "js ''T''" "[]"] ex_kilogram_up(2) ex_kilogram_down(3) half_up
    by simp
  have c: "map_option balanceKg
        (scan_rows (js ''T'') (js ''098701'') ([[js ''Order'']] @ brazil_row (js ''1 234.5 KG'') # []))
       = Some (Finite 1235)"
    using kilogram_balanceKg [OF header_skipped brazil_row_length brazil_row_key ex_kg_spaced(1),
        of "js ''T''" "[]"] ex_kg_spaced(2,3) half_up
    by simp
  show ?thesis
    using a b c header_skipped brazil_row_length brazil_row_key
      ex_kilogram_down ex_kilogram_up ex_kg_spaced by simp
qed

text \<open>
  C3.  The record's \<open>balanceKg\<close> is meant to be a whole number of kilograms, not
  negative.  The pattern accepts a numeric token without any digit, and the code does not
  test what \<^verbatim>\<open>parseFloat\<close> gives for it: for the balance cell \<^verbatim>\<open>n/a kg\<close> the token
  is one space, and the record has \<open>balanceKg = NaN\<close> and \<open>balance\<close> \<^verbatim>\<open>NaN Kilogram\<close>.
\<close>

theorem balanceKg_not_a_number:
  "scan_rows (js ''2025-06-01T10:00:00.000Z'') (js ''098701'') [brazil_row (js ''n/a kg'')]
     = Some (brazil_record (js ''NaN Kilogram'') NaN)"
  by code_simp

subsection \<open>The session\<close>

text \<open>
  C4.  The session is meant to be closed once on every path.  The \<^verbatim>\<open>catch\<close> block
  closes the browser whenever \<^verbatim>\<open>browser\<close> is set, and the \<^verbatim>\<open>try\<close> block goes on
  after its own \<^verbatim>\<open>browser.close()\<close>: when sending the response throws there, or
  when that first \<^verbatim>\<open>close\<close> throws itself, \<^verbatim>\<open>browser.close()\<close> is called a second
  time.  (\<open>close_called_once\<close>: with a session launched, one call when neither the first
  \<^verbatim>\<open>close\<close> nor the response throws.)
\<close>

theorem session_closed_twice:
  "handler (response_fails [brazil_row (js ''500 Tonne'')])
       (Some (js ''098701'')) (Some (js ''2025'')) (Some (js ''BR''))
     = ([Launch, NewPage, SetUserAgent, Goto (quota_url (js ''098701'') (js ''2025'') (js ''BR'')),
         Evaluate (js ''098701''), Close,
         Json 200 (Success_data (brazil_record (js ''500000 Kilogram'') (Finite 500000))
                                (js ''2025-06-01T10:00:01.000Z'')),
         Close,
         Json 500 (Scraping_failed (js ''write EPIPE'') (js ''098701'') (js ''BR'') (js ''2025''))],
        Returns ())
   \<and> count_list (fst (handler (response_fails [brazil_row (js ''500 Tonne'')])
                        (Some (js ''098701'')) (Some (js ''2025'')) (Some (js ''BR'')))) Close = 2
   \<and> handler (close_fails [brazil_row (js ''500 Tonne'')])
       (Some (js ''098701'')) (Some (js ''2025'')) (Some (js ''BR''))
     = ([Launch, NewPage, SetUserAgent, Goto (quota_url (js ''098701'') (js ''2025'') (js ''BR'')),
         Evaluate (js ''098701''), Close, Close,
         Json 500 (Scraping_failed (js ''Protocol error'') (js ''098701'') (js ''BR'') (js ''2025''))],
        Returns ())"
  using js_nonempty scan_500_tonne_alone
  by (simp add: handler_def try_block_def falsy_def response_fails_def close_fails_def all_return_def)

subsection \<open>Rows that are skipped\<close>

text \<open>
  C5.  A row with the order number in its first cell and a balance cell that is not a
  numeric value followed by a unit is meant to be skipped, the scan going on with the rows
  after it, and the outcome to be "not found" when no row is left.  The pattern takes white
  space and points for a numeric token, so a balance cell \<^verbatim>\<open>n/a kg\<close>, which has no digit
  before the unit, is matched all the same (group 1 is one space): the row is not skipped,
  the row after it with \<^verbatim>\<open>500 Tonne\<close> is never looked at, and the answer is 200 with a
  record whose \<open>balanceKg\<close> is NaN, where "not found" was meant.  The defect is the one
  that lets \<open>balanceKg\<close> be NaN: a numeric token with no digit.
  (\<open>unmatched_row_skipped\<close>: a row the pattern does not match is skipped as described.)
\<close>

theorem malformed_balance_taken:
  "regex_match (trim (brazil_row (js ''n/a kg'') ! 4)) = Some (js '' '', js ''kg'')
   \<and> filter is_digit (js '' '') = []
   \<and> scan_rows (js ''2025-06-01T10:00:00.000Z'') (js ''098701'')
         [brazil_row (js ''n/a kg''), brazil_row (js ''500 Tonne'')]
       = Some (brazil_record (js ''NaN Kilogram'') NaN)
   \<and> scan_rows (js ''2025-06-01T10:00:00.000Z'') (js ''098701'') [brazil_row (js ''500 Tonne'')]
       = Some (brazil_record (js ''500000 Kilogram'') (Finite 500000))
   \<and> handler (all_return [brazil_row (js ''n/a kg'')])
         (Some (js ''098701'')) (Some (js ''2025'')) (Some (js ''BR''))
       = ([Launch, NewPage, SetUserAgent, Goto (quota_url (js ''098701'') (js ''2025'') (js ''BR'')),
           Evaluate (js ''098701''), Close,
           Json 200 (Success_data (brazil_record (js ''NaN Kilogram'') NaN)
                                  (js ''2025-06-01T10:00:01.000Z''))],
          Returns ())"
  using scan_no_digit scan_no_digit_alone scan_500_tonne_alone js_nonempty
  by (simp add: handler_all_return all_return_simps)

subsection \<open>The address of the detail page\<close>

text \<open>
  C6.  In the record of every successful extraction, \<open>moreInfoUrl\<close> is the fixed address
  of the detail page with two places filled: the start date of the record (the trimmed
  text of the third cell of a row), split at its hyphens, with the parts in reverse order
  and joined by hyphens again, and the order number.  So a start date \<open>d-m-y\<close> whose
  three parts have no hyphen appears as \<open>y-m-d\<close>; the example runs the start date
  \<^verbatim>\<open>05-03-2025\<close>, which appears as \<^verbatim>\<open>2025-03-05\<close>.
\<close>

theorem moreInfoUrl_from_startDate:
  assumes "scan_rows now ordNum rows = Some r"
  shows "moreInfoUrl r
       = js ''https://ec.europa.eu/taxation_customs/dds2/taric/quota_tariff_details.jsp?Lang=en&StartDate=''
         @ join_with 45 (rev (split_on 45 (startDate r))) @ js ''&Code='' @ ordNum
     \<and> (\<exists>cells\<in>set rows. startDate r = trim (cells ! 2))
     \<and> (\<forall>d m y. startDate r = d @ 45 # m @ 45 # y \<and> 45 \<notin> set d \<and> 45 \<notin> set m \<and> 45 \<notin> set y
           \<longrightarrow> moreInfoUrl r
                 = js ''https://ec.europa.eu/taxation_customs/dds2/taric/quota_tariff_details.jsp?Lang=en&StartDate=''
                   @ (y @ 45 # m @ 45 # d) @ js ''&Code='' @ ordNum)"
proof -
  from assms obtain cells where c: "cells \<in> set rows" "row_body now ordNum cells = Some r"
    using scan_rows_Some by blast
  note u = row_body_url [OF c(2)]
  have "\<exists>cells\<in>set rows. startDate r = trim (cells ! 2)"
    using c(1) u by blast
  moreover have "moreInfoUrl r
                 = js ''https://ec.europa.eu/taxation_customs/dds2/taric/quota_tariff_details.jsp?Lang=en&StartDate=''
                   @ (y @ 45 # m @ 45 # d) @ js ''&Code='' @ ordNum"
    if "startDate r = d @ 45 # m @ 45 # y \<and> 45 \<notin> set d \<and> 45 \<notin> set m \<and> 45 \<notin> set y" for d m y
    using u that reverse_three_parts [of d m y] by simp
  ultimately show ?thesis
    using u by blast
qed

lemma scan_march:
  "scan_rows (js ''T'') (js ''098701'') [march_row]
     = Some \<lparr>orderNumber = js ''098701'', origin = js ''Brazil'', startDate = js ''05-03-2025'',
            endDate = js ''31-12-2025'', balance = js ''500000 Kilogram'', balanceKg = Finite 500000,
            unit = js ''Kilogram'',
            moreInfoUrl = js ''https://ec.europa.eu/taxation_customs/dds2/taric/quota_tariff_details.jsp?Lang=en&StartDate=2025-03-05&Code=098701'',
            scrapedAt = js ''T''\<rparr>"
  by code_simp

theorem moreInfoUrl_from_startDate_witness:
  "scan_rows (js ''T'') (js ''098701'') [march_row]
     = Some \<lparr>orderNumber = js ''098701'', origin = js ''Brazil'', startDate = js ''05-03-2025'',
            endDate = js ''31-12-2025'', balance = js ''500000 Kilogram'', balanceKg = Finite 500000,
            unit = js ''Kilogram'',
            moreInfoUrl = js ''https://ec.europa.eu/taxation_customs/dds2/taric/quota_tariff_details.jsp?Lang=en&StartDate=2025-03-05&Code=098701'',
            scrapedAt = js ''T''\<rparr>
   \<and> js ''05-03-2025'' = js ''05'' @ 45 # js ''03'' @ 45 # js ''2025''
   \<and> 45 \<notin> set (js ''05'') \<and> 45 \<notin> set (js ''03'') \<and> 45 \<notin> set (js ''2025'')
   \<and> js ''https://ec.europa.eu/taxation_customs/dds2/taric/quota_tariff_details.jsp?Lang=en&StartDate=2025-03-05&Code=098701''
       = js ''https://ec.europa.eu/taxation_customs/dds2/taric/quota_tariff_details.jsp?Lang=en&StartDate=''
         @ (js ''2025'' @ 45 # js ''03'' @ 45 # js ''05'') @ js ''&Code='' @ js ''098701''"
proof -
  have parts: "js ''05-03-2025'' = js ''05'' @ 45 # js ''03'' @ 45 # js ''2025''
     \<and> 45 \<notin> set (js ''05'') \<and> 45 \<notin> set (js ''03'') \<and> 45 \<notin> set (js ''2025'')"
    by (simp add: js_def)
  have "js ''https://ec.europa.eu/taxation_customs/dds2/taric/quota_tariff_details.jsp?Lang=en&StartDate=2025-03-05&Code=098701''
       = js ''https://ec.europa.eu/taxation_customs/dds2/taric/quota_tariff_details.jsp?Lang=en&StartDate=''
         @ (js ''2025'' @ 45 # js ''03'' @ 45 # js ''05'') @ js ''&Code='' @ js ''098701''"
    using moreInfoUrl_from_startDate [OF scan_march, THEN conjunct2, THEN conjunct2,
        THEN spec, THEN spec, THEN spec, THEN mp, of "js ''05''" "js ''03''" "js ''2025''"] parts
    by simp
  then show ?thesis
    using scan_march parts by simp
qed

subsection \<open>Letter case in the balance cell\<close>

text \<open>
  C7.  The letter case of the balance cell does not matter: replacing the balance cell of a
  row by a text that differs from it in the case of ASCII letters only (so, in the case of
  its unit token) leaves the result of the scan as it is, \<open>balanceKg\<close> and every other
  field.  The example runs \<^verbatim>\<open>12 TONNE\<close>, \<^verbatim>\<open>12 tonne\<close> and \<^verbatim>\<open>12 Tonne\<close>: 12000 each.
\<close>

theorem unit_case_insensitive:
  "toLowerCase t' = toLowerCase (cells ! 4) \<Longrightarrow>
     scan_rows now ordNum (pre @ cells[4 := t'] # post) = scan_rows now ordNum (pre @ cells # post)"
  by (intro scan_rows_same_row row_body_same_lower)

lemma scan_12_Tonne:
  "map_option balanceKg (scan_rows (js ''T'') (js ''098701'') ([[js ''Order'']] @ brazil_row (js ''12 Tonne'') # []))
     = Some (Finite 12000)"
  by code_simp

lemma ex_case_variants:
  "toLowerCase (js ''12 TONNE'') = toLowerCase (brazil_row (js ''12 Tonne'') ! 4)"
  "toLowerCase (js ''12 tonne'') = toLowerCase (brazil_row (js ''12 Tonne'') ! 4)"
  "(brazil_row (js ''12 Tonne''))[4 := js ''12 TONNE''] = brazil_row (js ''12 TONNE'')"
  "(brazil_row (js ''12 Tonne''))[4 := js ''12 tonne''] = brazil_row (js ''12 tonne'')"
  by code_simp+

theorem unit_case_insensitive_witness:
  "toLowerCase (js ''12 TONNE'') = toLowerCase (brazil_row (js ''12 Tonne'') ! 4)
   \<and> toLowerCase (js ''12 tonne'') = toLowerCase (brazil_row (js ''12 Tonne'') ! 4)
   \<and> map_option balanceKg
        (scan_rows (js ''T'') (js ''098701'') ([[js ''Order'']] @ brazil_row (js ''12 TONNE'') # []))
       = Some (Finite 12000)
   \<and> map_option balanceKg
        (scan_rows (js ''T'') (js ''098701'') ([[js ''Order'']] @ brazil_row (js ''12 tonne'') # []))
       = Some (Finite 12000)
   \<and> map_option balanceKg
        (scan_rows (js ''T'') (js ''098701'') ([[js ''Order'']] @ brazil_row (js ''12 Tonne'') # []))
       = Some (Finite 12000)"
  using unit_case_insensitive [OF ex_case_variants(1), of "js ''T''" "js ''098701''" "[[js ''Order'']]" "[]"]
    unit_case_insensitive [OF ex_case_variants(2), of "js ''T''" "js ''098701''" "[[js ''Order'']]" "[]"]
    scan_12_Tonne ex_case_variants
  by simp

subsection \<open>The balance as text\<close>

text \<open>
  C8.  The record has a field \<open>balance\<close>, which is meant to be the whole number of
  \<open>balanceKg\<close> followed by \<^verbatim>\<open> Kilogram\<close>.  Both are built from the same
  \<^verbatim>\<open>Math.round(balanceKg)\<close>, so they agree; but for the balance cell \<^verbatim>\<open>n/a kg\<close>
  that value is NaN, and the record has the text \<^verbatim>\<open>NaN Kilogram\<close> beside a \<open>balanceKg\<close>
  that is no whole number.  The defect is the one that lets \<open>balanceKg\<close> be NaN: a
  numeric token with no digit.
  (\<open>balance_printed\<close>: when \<open>balanceKg\<close> is a whole number \<open>n\<close> below \<open>2 ^ 53\<close>, the text is
  the decimal digits of \<open>n\<close> followed by \<^verbatim>\<open> Kilogram\<close>.)
\<close>

theorem balance_text_not_a_number:
  "map_option balance
       (scan_rows (js ''2025-06-01T10:00:00.000Z'') (js ''098701'') [brazil_row (js ''n/a kg'')])
     = Some (js ''NaN Kilogram'')
   \<and> map_option balanceKg
       (scan_rows (js ''2025-06-01T10:00:00.000Z'') (js ''098701'') [brazil_row (js ''n/a kg'')])
     = Some NaN
   \<and> \<not> whole_kg NaN"
  using scan_no_digit_alone by (simp add: brazil_record_def whole_kg_def)

subsection \<open>Requests without a parameter\<close>

text \<open>
  C9.  When one of the query parameters \<^verbatim>\<open>orderNumber\<close>, \<^verbatim>\<open>year\<close>, \<^verbatim>\<open>origin\<close> is
  absent or empty, the handler makes one call only: it sends the response of status 400
  that reports the missing parameters with the three parameters as received.  No browser
  is launched and no page is loaded.
\<close>

theorem missing_parameter_400:
  "falsy orderNumber' \<or> falsy year' \<or> falsy origin' \<Longrightarrow>
     fst (handler e orderNumber' year' origin')
       = [Json 400 (Missing_required_parameters orderNumber' year' origin')]
     \<and> Launch \<notin> set (fst (handler e orderNumber' year' origin'))
     \<and> (\<forall>u. Goto u \<notin> set (fst (handler e orderNumber' year' origin')))"
  by (simp add: handler_def)

theorem missing_parameter_400_witness:
  "(falsy (Some (js ''098701'')) \<or> falsy (Some []) \<or> falsy None)
   \<and> fst (handler (all_return []) (Some (js ''098701'')) (Some []) None)
       = [Json 400 (Missing_required_parameters (Some (js ''098701'')) (Some []) None)]
   \<and> Launch \<notin> set (fst (handler (all_return []) (Some (js ''098701'')) (Some []) None))
   \<and> (\<forall>u. Goto u \<notin> set (fst (handler (all_return []) (Some (js ''098701'')) (Some []) None)))"
proof -
  have h: "falsy (Some (js ''098701'')) \<or> falsy (Some []) \<or> falsy None"
    by (simp add: falsy_def)
  show ?thesis
    using h missing_parameter_400 [OF h, of "all_return []"] by blast
qed

subsection \<open>The year in the address of the page\<close>

text \<open>
  C10.  The year is read by \<^verbatim>\<open>parseInt\<close>, which stops at the first character that is
  not a digit.  Not every year that begins with digits is read as its digits, though: after
  \<^verbatim>\<open>0x\<close> the digits are read in radix 16 (with the year \<^verbatim>\<open>0xff\<close> the page is loaded
  with \<^verbatim>\<open>Year=255&Year=256\<close>), and a prefix from \<open>2 ^ 53\<close> on need not be kept exactly.

  What holds: let the year be a non-empty run of decimal digits followed by nothing or by
  a character that is not a digit, not begin with \<^verbatim>\<open>0x\<close> or \<^verbatim>\<open>0X\<close>, and let the
  value \<open>v\<close> of the digits be below \<open>2 ^ 53\<close>; let the order number and the origin be given.
  Then the handler never answers 400, and when the browser is launched and the page is
  set up, its fourth call loads the address that ends with \<^verbatim>\<open>&Year=\<close>, the decimal
  digits of \<open>v\<close>, \<^verbatim>\<open>&Year=\<close> and the decimal digits of \<open>v + 1\<close>.  The example runs
  \<^verbatim>\<open>2025x\<close>: \<^verbatim>\<open>Year=2025&Year=2026\<close>.
\<close>

theorem year_digit_prefix:
  assumes "ds \<noteq> []" and "\<forall>c\<in>set ds. is_digit c"
    and "rest = [] \<or> \<not> is_digit (hd rest)"
    and "take 2 (ds @ rest) \<noteq> js ''0x'' \<and> take 2 (ds @ rest) \<noteq> js ''0X''"
    and "digits_value ds < 2 ^ 53"
    and "orderNumber' \<noteq> []" and "origin' \<noteq> []"
    and "launch e = Returns ()" and "newPage e = Returns ()" and "setUserAgent e = Returns ()"
  shows "(\<forall>b. Json 400 b \<notin> set (fst (handler e (Some orderNumber') (Some (ds @ rest)) (Some origin'))))
     \<and> take 4 (fst (handler e (Some orderNumber') (Some (ds @ rest)) (Some origin')))
         = [Launch, NewPage, SetUserAgent,
            Goto (js ''https://ec.europa.eu/taxation_customs/dds2/taric/quota_consultation.jsp?Lang=en&Code=''
                  @ orderNumber' @ js ''&Origin='' @ origin' @ js ''&Expand=true&Year=''
                  @ dec (digits_value ds) @ js ''&Year='' @ dec (digits_value ds + 1))]"
proof -
  have y: "ds @ rest \<noteq> []"
    using assms(1) by simp
  have "\<forall>b. Json 400 b \<notin> set (fst (handler e (Some orderNumber') (Some (ds @ rest)) (Some origin')))"
    using handler_not_rejected [OF assms(6) y assms(7)] by blast
  moreover have "take 4 (fst (handler e (Some orderNumber') (Some (ds @ rest)) (Some origin')))
         = [Launch, NewPage, SetUserAgent, Goto (quota_url orderNumber' (ds @ rest) origin')]"
    using assms(6) y assms(7-10) by (rule handler_navigates)
  ultimately show ?thesis
    unfolding quota_url_digits [OF assms(1-5)] by blast
qed

lemma dec_2025: "dec 2025 = js ''2025''" "dec 2026 = js ''2026''"
  by (simp_all add: dec.simps js_def)

lemma ex_2025x:
  "js ''2025'' \<noteq> []" "\<forall>c\<in>set (js ''2025''). is_digit c"
  "js ''x'' = [] \<or> \<not> is_digit (hd (js ''x''))"
  "take 2 (js ''2025'' @ js ''x'') \<noteq> js ''0x'' \<and> take 2 (js ''2025'' @ js ''x'') \<noteq> js ''0X''"
  "digits_value (js ''2025'') = 2025"
  by (simp_all add: js_def is_digit_def digits_value_def digit_val_def)

theorem year_digit_prefix_witness:
  "js ''2025'' \<noteq> []
   \<and> \<not> is_digit (hd (js ''x''))
   \<and> take 2 (js ''2025'' @ js ''x'') \<noteq> js ''0x'' \<and> take 2 (js ''2025'' @ js ''x'') \<noteq> js ''0X''
   \<and> digits_value (js ''2025'') = 2025
   \<and> js ''2025'' @ js ''x'' = js ''2025x''
   \<and> (\<forall>b. Json 400 b \<notin> set (fst (handler (all_return [])
                (Some (js ''098701'')) (Some (js ''2025'' @ js ''x'')) (Some (js ''BR'')))))
   \<and> take 4 (fst (handler (all_return [])
                (Some (js ''098701'')) (Some (js ''2025'' @ js ''x'')) (Some (js ''BR''))))
       = [Launch, NewPage, SetUserAgent,
          Goto (js ''https://ec.europa.eu/taxation_customs/dds2/taric/quota_consultation.jsp?Lang=en&Code=098701&Origin=BR&Expand=true&Year=2025&Year=2026'')]"
proof -
  have small: "digits_value (js ''2025'') < 2 ^ 53"
    by (simp add: ex_2025x(5))
  have url: "js ''https://ec.europa.eu/taxation_customs/dds2/taric/quota_consultation.jsp?Lang=en&Code=''
       @ js ''098701'' @ js ''&Origin='' @ js ''BR'' @ js ''&Expand=true&Year=''
       @ dec (digits_value (js ''2025'')) @ js ''&Year='' @ dec (digits_value (js ''2025'') + 1)
     = js ''https://ec.europa.eu/taxation_customs/dds2/taric/quota_consultation.jsp?Lang=en&Code=098701&Origin=BR&Expand=true&Year=2025&Year=2026''"
    by (simp add: ex_2025x(5) dec_2025) (simp add: js_def)
  note t = year_digit_prefix [OF ex_2025x(1-4) small js_nonempty(1,3) all_return_simps(1-3),
      of "[]", unfolded url]
  show ?thesis
    using t ex_2025x by (simp add: js_def)
qed

theorem year_hex_prefix_counterexample:
  "quota_url (js ''098701'') (js ''0xff'') (js ''BR'')
     = js ''https://ec.europa.eu/taxation_customs/dds2/taric/quota_consultation.jsp?Lang=en&Code=098701&Origin=BR&Expand=true&Year=255&Year=256''
   \<and> quota_url (js ''098701'') (js ''0xff'') (js ''BR'')
     \<noteq> js ''https://ec.europa.eu/taxation_customs/dds2/taric/quota_consultation.jsp?Lang=en&Code=098701&Origin=BR&Expand=true&Year=0&Year=1''
   \<and> take 4 (fst (handler (all_return [])
                (Some (js ''098701'')) (Some (js ''0xff'')) (Some (js ''BR''))))
       = [Launch, NewPage, SetUserAgent,
          Goto (js ''https://ec.europa.eu/taxation_customs/dds2/taric/quota_consultation.jsp?Lang=en&Code=098701&Origin=BR&Expand=true&Year=255&Year=256'')]"
proof -
  have u: "quota_url (js ''098701'') (js ''0xff'') (js ''BR'')
     = js ''https://ec.europa.eu/taxation_customs/dds2/taric/quota_consultation.jsp?Lang=en&Code=098701&Origin=BR&Expand=true&Year=255&Year=256''"
    by code_simp
  have y: "js ''0xff'' \<noteq> []"
    by (simp add: js_def)
  have n: "take 4 (fst (handler (all_return [])
                (Some (js ''098701'')) (Some (js ''0xff'')) (Some (js ''BR''))))
       = [Launch, NewPage, SetUserAgent, Goto (quota_url (js ''098701'') (js ''0xff'') (js ''BR''))]"
    using js_nonempty(1) y js_nonempty(3) all_return_simps(1-3) by (rule handler_navigates)
  show ?thesis
    unfolding n unfolding u by (simp add: js_def)
qed

end
